theory Spec2Isabelle
  imports Complex_Main
begin

section \<open>Joystick control of myCobot: a shallow embedding\<close>

text \<open>
  The development follows \<^verbatim>\<open>joystick_control_mycobot.py\<close>. Objects become records,
  method calls become functions that take the object's state and return the new one,
  calls on the robot become a list of issued commands, and a raised exception is a value.
  Console output (\<^verbatim>\<open>print\<close>) is not part of the model. Angles are Python floats: a
  float is modelled as the real number it stands for, and an arithmetic operation on
  floats as the exact operation followed by the rounding of the float format. The
  rounding is a parameter of the functions that compute with floats; \<open>binary64\<close> below
  is the one of Python. Infinities and NaN are not modelled.
\<close>

subsection \<open>Python basics\<close>

datatype exc = KeyboardInterrupt | KeyError | IndexError | ValueError

text \<open>\<^verbatim>\<open>xs[i]\<close>: a negative index counts from the end, an index out of range raises.\<close>

definition py_getitem :: "'a list \<Rightarrow> int \<Rightarrow> 'a option" where
  "py_getitem xs i =
     (if 0 \<le> i \<and> i < int (length xs) then Some (xs ! nat i)
      else if - int (length xs) \<le> i \<and> i < 0 then Some (xs ! nat (int (length xs) + i))
      else None)"

text \<open>\<^verbatim>\<open>xs[i] = v\<close>, with the same reading of the index.\<close>

definition py_setitem :: "'a list \<Rightarrow> int \<Rightarrow> 'a \<Rightarrow> 'a list option" where
  "py_setitem xs i v =
     (if 0 \<le> i \<and> i < int (length xs) then Some (xs[nat i := v])
      else if - int (length xs) \<le> i \<and> i < 0 then Some (xs[nat (int (length xs) + i) := v])
      else None)"

text \<open>
  A Python float is an IEEE 754 binary64 number. \<open>binary64 x\<close> is the double nearest
  to the real \<open>x\<close>, a tie going to the even significand: the significand has 53 bits,
  and below \<open>2\<^sup>-\<^sup>1\<^sup>0\<^sup>2\<^sup>2\<close> the doubles are \<open>2\<^sup>-\<^sup>1\<^sup>0\<^sup>7\<^sup>4\<close> apart. Reals beyond the largest
  double, which the format rounds to an infinity, are not modelled.
\<close>

definition round_half_even :: "real \<Rightarrow> int" where
  "round_half_even r =
     (let f = \<lfloor>r\<rfloor> in
      if r - real_of_int f < 1 / 2 then f
      else if 1 / 2 < r - real_of_int f then f + 1
      else if even f then f else f + 1)"

definition ulp_exponent :: "real \<Rightarrow> int" where
  "ulp_exponent x = max (\<lfloor>Transcendental.log 2 \<bar>x\<bar>\<rfloor> - 52) (-1074)"

definition binary64 :: "real \<Rightarrow> real" where
  "binary64 x =
     real_of_int (round_half_even (x / 2 powr real_of_int (ulp_exponent x)))
       * 2 powr real_of_int (ulp_exponent x)"

text \<open>
  What the model needs of the rounding of the float format: it is monotone, and it
  leaves an integer of magnitude up to \<open>2\<^sup>5\<^sup>3\<close> as it is.
\<close>

definition float_rounding :: "(real \<Rightarrow> real) \<Rightarrow> bool" where
  "float_rounding rnd \<longleftrightarrow>
     (\<forall>x y. x \<le> y \<longrightarrow> rnd x \<le> rnd y) \<and>
     (\<forall>k::int. \<bar>k\<bar> \<le> 2 ^ 53 \<longrightarrow> rnd (real_of_int k) = real_of_int k)"

subsection \<open>The robot: \<^verbatim>\<open>Customized_MyCobot\<close>\<close>

text \<open>The calls of the \<^verbatim>\<open>pymycobot\<close> API that the program makes to move or light the robot.\<close>

datatype command =
    Send_angles "real list" int
  | Send_angle int real int
  | Stop
  | Set_color int int int
  | Release_all_servos

record cobot =
  color :: "int \<times> int \<times> int"
  joint :: int

text \<open>
  The dictionary built by \<^verbatim>\<open>Joystick_Signal_Adapter.notify\<close>, as its reader sees it
  during one call of \<^verbatim>\<open>update\<close>.
\<close>

record signals =
  buttons :: "string set"
  triggers :: "real list"
  sticks :: "(real \<times> real) list"

text \<open>What one method call did: the object afterwards, the commands sent, the exception raised.\<close>

record outcome =
  mc :: cobot
  issued :: "command list"
  raised :: "exc option"

definition returns :: "cobot \<Rightarrow> command list \<Rightarrow> outcome" where
  "returns s cs = \<lparr>mc = s, issued = cs, raised = None\<rparr>"

definition raises :: "cobot \<Rightarrow> exc \<Rightarrow> outcome" where
  "raises s e = \<lparr>mc = s, issued = [], raised = Some e\<rparr>"

definition MIN_ANGLES :: "real list" where
  "MIN_ANGLES = [-160, -100, -150, -150, -160, -180]"

definition MAX_ANGLES :: "real list" where
  "MAX_ANGLES = [160, 100, 150, 150, 160, 180]"

text \<open>\<^verbatim>\<open>__init__\<close>: green LED, joint 1, and the colour is sent to the robot.\<close>

definition init_cobot :: cobot where
  "init_cobot = \<lparr>color = (0, 255, 0), joint = 1\<rparr>"

definition Customized_MyCobot :: outcome where
  "Customized_MyCobot = returns init_cobot [Set_color 0 255 0]"

definition next_rgb :: "int \<times> int \<times> int \<Rightarrow> int \<times> int \<times> int" where
  "next_rgb c =
     (case c of (r, g, b) \<Rightarrow>
        if r = 0 \<and> g > 0 then (let g' = max (g - 32) 0 in (r, g', 255 - g'))
        else if g = 0 \<and> b > 0 then (let b' = max (b - 32) 0 in (255 - b', g, b'))
        else if b = 0 \<and> r > 0 then (let r' = max (r - 32) 0 in (r', 255 - r', b))
        else (r, g, b))"

definition next_color :: "cobot \<Rightarrow> outcome" where
  "next_color s =
     (case next_rgb (color s) of (r, g, b) \<Rightarrow>
        returns (s\<lparr>color := (r, g, b)\<rparr>) [Set_color r g b])"

definition go_sleep :: "cobot \<Rightarrow> outcome" where
  "go_sleep s = returns s [Send_angles [83, 140, -150, 154, 87, 0] 50]"

definition get_combination_action :: "signals \<Rightarrow> string option" where
  "get_combination_action sg =
     (if ''LEFT_SHOULDER'' \<in> buttons sg \<and> ''RIGHT_SHOULDER'' \<in> buttons sg \<and>
         ''START'' \<in> buttons sg \<and> ''BACK'' \<in> buttons sg
      then Some ''end_program'' else None)"

text \<open>
  \<^verbatim>\<open>Customized_MyCobot.update\<close>. The first argument is the rounding of float arithmetic,
  the second is what \<^verbatim>\<open>get_angles()\<close> of the robot would return during this call. A Python set is finite, so \<^verbatim>\<open>len(...) > 0\<close> says it is not empty.
\<close>

definition cobot_update :: "(real \<Rightarrow> real) \<Rightarrow> real list \<Rightarrow> cobot \<Rightarrow> signals \<Rightarrow> outcome" where
  "cobot_update rnd angles s sg =
     (if buttons sg \<noteq> {} then
        if get_combination_action sg = Some ''end_program'' then raises s KeyboardInterrupt
        else if ''A'' \<in> buttons sg then returns s [Send_angles [0, 0, 0, 0, 0, 0] 50]
        else if ''B'' \<in> buttons sg then returns s [Send_angles [83, 140, -150, 154, 87, 0] 50]
        else if ''X'' \<in> buttons sg then returns s [Stop]
        else if ''Y'' \<in> buttons sg then next_color s
        else if ''DPAD_LEFT'' \<in> buttons sg then
          (if joint s = 6 then
             (case py_getitem angles (joint s - 1) of
                None \<Rightarrow> raises s IndexError
              | Some a \<Rightarrow>
                  (let theta = rnd (a - 179);
                       theta = (if theta < -180 then rnd (theta + 360) else theta)
                   in returns s [Send_angle (joint s) theta 10]))
           else
             (case py_getitem MIN_ANGLES (joint s - 1) of
                None \<Rightarrow> raises s IndexError
              | Some theta \<Rightarrow> returns s [Send_angle (joint s) theta 10]))
        else if ''DPAD_RIGHT'' \<in> buttons sg then
          (if joint s = 6 then
             (case py_getitem angles (joint s - 1) of
                None \<Rightarrow> raises s IndexError
              | Some a \<Rightarrow>
                  (let theta = rnd (a + 179);
                       theta = (if theta > 180 then rnd (theta - 360) else theta)
                   in returns s [Send_angle (joint s) theta 10]))
           else
             (case py_getitem MAX_ANGLES (joint s - 1) of
                None \<Rightarrow> raises s IndexError
              | Some theta \<Rightarrow> returns s [Send_angle (joint s) theta 10]))
        else if ''LEFT_SHOULDER'' \<in> buttons sg then
          (if joint s = 1 then returns (s\<lparr>joint := 6\<rparr>) []
           else returns (s\<lparr>joint := joint s - 1\<rparr>) [])
        else if ''RIGHT_SHOULDER'' \<in> buttons sg then
          (if joint s = 6 then returns (s\<lparr>joint := 1\<rparr>) []
           else returns (s\<lparr>joint := joint s + 1\<rparr>) [])
        else returns s []
      else returns s [])"

subsection \<open>The adapter: \<^verbatim>\<open>Joystick_Signal_Adapter\<close>\<close>

text \<open>
  The adapter keeps its set of pressed buttons and its two lists as objects that it
  mutates in place, and \<^verbatim>\<open>notify\<close> puts these very objects into the dictionary it hands
  out. The store maps a reference to the current content of the object, one component
  for each class of object.
\<close>

type_synonym ref = nat

record store =
  set_objs :: "ref \<Rightarrow> string set"
  trigger_objs :: "ref \<Rightarrow> real list"
  stick_objs :: "ref \<Rightarrow> (real \<times> real) list"

datatype event_type =
    EVENT_CONNECTED
  | EVENT_DISCONNECTED
  | EVENT_BUTTON_PRESSED
  | EVENT_BUTTON_RELEASED
  | EVENT_TRIGGER_MOVED
  | EVENT_STICK_MOVED

text \<open>An \<^verbatim>\<open>XInput.Event\<close>; only the attributes of its own type carry meaning.\<close>

record event =
  user_index :: int
  etype :: event_type
  button :: string
  trigger :: int
  evalue :: real
  stick :: int
  dir :: "real \<times> real"

record adapter =
  pressed_button :: ref
  trigger_values :: ref
  stick_values :: ref
  keyboard_interrupt :: "exc option"

text \<open>\<^verbatim>\<open>__init__\<close> creates the three objects; each is the first of its class.\<close>

definition init_adapter :: adapter where
  "init_adapter =
     \<lparr>pressed_button = 0, trigger_values = 0, stick_values = 0, keyboard_interrupt = None\<rparr>"

definition init_store :: store where
  "init_store =
     \<lparr>set_objs = (\<lambda>_. {}), trigger_objs = (\<lambda>_. [0, 0]),
      stick_objs = (\<lambda>_. [(0, 0), (0, 0)])\<rparr>"

text \<open>
  \<^verbatim>\<open>Joystick_Signal_Adapter.update\<close>. \<^verbatim>\<open>set.remove\<close> raises \<^verbatim>\<open>KeyError\<close> when the element
  is absent; the two other event types fall through every branch.
\<close>

definition adapter_update :: "adapter \<Rightarrow> event \<Rightarrow> store \<Rightarrow> exc + store" where
  "adapter_update a e h =
     (if user_index e \<noteq> 0 then Inr h
      else if etype e = EVENT_BUTTON_PRESSED then
        Inr (h\<lparr>set_objs := (set_objs h)
               (pressed_button a := insert (button e) (set_objs h (pressed_button a)))\<rparr>)
      else if etype e = EVENT_BUTTON_RELEASED then
        (if button e \<in> set_objs h (pressed_button a) then
           Inr (h\<lparr>set_objs := (set_objs h)
                  (pressed_button a := set_objs h (pressed_button a) - {button e})\<rparr>)
         else Inl KeyError)
      else if etype e = EVENT_TRIGGER_MOVED then
        (case py_setitem (trigger_objs h (trigger_values a)) (trigger e) (evalue e) of
           None \<Rightarrow> Inl IndexError
         | Some xs \<Rightarrow> Inr (h\<lparr>trigger_objs := (trigger_objs h) (trigger_values a := xs)\<rparr>))
      else if etype e = EVENT_STICK_MOVED then
        (case py_setitem (stick_objs h (stick_values a)) (stick e) (dir e) of
           None \<Rightarrow> Inl IndexError
         | Some xs \<Rightarrow> Inr (h\<lparr>stick_objs := (stick_objs h) (stick_values a := xs)\<rparr>))
      else Inr h)"

text \<open>The dictionary of \<^verbatim>\<open>notify\<close>: three keys, each bound to a reference.\<close>

record signals_dict =
  buttons_ref :: ref
  triggers_ref :: ref
  sticks_ref :: ref

definition notify_dict :: "adapter \<Rightarrow> signals_dict" where
  "notify_dict a =
     \<lparr>buttons_ref = pressed_button a, triggers_ref = trigger_values a,
      sticks_ref = stick_values a\<rparr>"

text \<open>Reading a dictionary in a given store.\<close>

definition deref :: "store \<Rightarrow> signals_dict \<Rightarrow> signals" where
  "deref h d =
     \<lparr>buttons = set_objs h (buttons_ref d), triggers = trigger_objs h (triggers_ref d),
      sticks = stick_objs h (sticks_ref d)\<rparr>"

text \<open>
  \<^verbatim>\<open>notify\<close>. \<^verbatim>\<open>main\<close> registers the robot as the only observer of the adapter, so the
  loop of \<^verbatim>\<open>Subject.notify\<close> is one call of the robot's \<^verbatim>\<open>update\<close>.
\<close>

definition adapter_notify :: "(real \<Rightarrow> real) \<Rightarrow> adapter \<Rightarrow> store \<Rightarrow> real list \<Rightarrow> cobot \<Rightarrow> outcome" where
  "adapter_notify rnd a h angles s = cobot_update rnd angles s (deref h (notify_dict a))"

text \<open>
  \<^verbatim>\<open>run\<close>: the loop has no exit of its own. Each tick is given by the store and the
  robot's angles at that moment; when the ticks run out the thread is still looping.
\<close>

datatype thread_state = Looping | Returned | Died exc

record run_end =
  sa :: adapter
  robot :: cobot
  sent :: "command list"
  thread :: thread_state

fun adapter_run :: "(real \<Rightarrow> real) \<Rightarrow> adapter \<Rightarrow> cobot \<Rightarrow> (store \<times> real list) list \<Rightarrow> run_end" where
  "adapter_run rnd a s [] = \<lparr>sa = a, robot = s, sent = [], thread = Looping\<rparr>"
| "adapter_run rnd a s ((h, angles) # ticks) =
     (let r = adapter_notify rnd a h angles s in
      case raised r of
        None \<Rightarrow> (let t = adapter_run rnd a (mc r) ticks in t\<lparr>sent := issued r @ sent t\<rparr>)
      | Some e \<Rightarrow>
          if e = KeyboardInterrupt
          then \<lparr>sa = a\<lparr>keyboard_interrupt := Some e\<rparr>, robot = mc r, sent = issued r,
                thread = Returned\<rparr>
          else \<lparr>sa = a, robot = mc r, sent = issued r, thread = Died e\<rparr>)"

subsection \<open>The coordinator: \<^verbatim>\<open>main\<close>\<close>

text \<open>
  The calls \<^verbatim>\<open>main\<close> makes on the two threads (\<^verbatim>\<open>jd\<close>, \<^verbatim>\<open>sa\<close>), on the robot
  (\<^verbatim>\<open>mc\<close>) and on the clock.
\<close>

datatype action =
    Register string string
  | Disregister string string
  | Start string
  | Kill string
  | Robot command
  | Sleep nat

record coordinator =
  observers :: "string \<Rightarrow> string list"
  log :: "action list"

text \<open>\<^verbatim>\<open>Subject.register\<close> and \<^verbatim>\<open>Subject.disregister\<close> on a list of observers.\<close>

definition register :: "string list \<Rightarrow> string list \<Rightarrow> string list" where
  "register obs new = obs @ new"

definition disregister :: "string list \<Rightarrow> string \<Rightarrow> exc + string list" where
  "disregister obs ob = (if ob \<in> set obs then Inr (remove1 ob obs) else Inl ValueError)"

fun perform :: "action \<Rightarrow> coordinator \<Rightarrow> exc + coordinator" where
  "perform (Register sub ob) c =
     Inr (c\<lparr>observers := (observers c)(sub := register (observers c sub) [ob]),
            log := log c @ [Register sub ob]\<rparr>)"
| "perform (Disregister sub ob) c =
     (case disregister (observers c sub) ob of
        Inl e \<Rightarrow> Inl e
      | Inr obs \<Rightarrow>
          Inr (c\<lparr>observers := (observers c)(sub := obs), log := log c @ [Disregister sub ob]\<rparr>))"
| "perform a c = Inr (c\<lparr>log := log c @ [a]\<rparr>)"

text \<open>
  A block of straight-line calls. The second argument is the moment of an interrupt from
  the keyboard, counted in completed calls of the block: Python raises
  \<^verbatim>\<open>KeyboardInterrupt\<close> there and the rest of the block is not executed.
\<close>

fun exec_block :: "action list \<Rightarrow> nat option \<Rightarrow> coordinator \<Rightarrow> coordinator \<times> exc option" where
  "exec_block [] k c = (c, None)"
| "exec_block (a # as) k c =
     (if k = Some 0 then (c, Some KeyboardInterrupt)
      else case perform a c of
             Inl e \<Rightarrow> (c, Some e)
           | Inr c' \<Rightarrow> exec_block as (map_option (\<lambda>n. n - 1) k) c')"

text \<open>
  The supervising loop. One element for each iteration: whether Ctrl-C arrives during
  it, and the value of \<^verbatim>\<open>sa.keyboard_interrupt\<close> it reads. The loop leaves only by an
  exception; \<open>None\<close> says it is still running when the observations end.
\<close>

record poll =
  ctrl_c :: bool
  flag :: "exc option"

fun supervise :: "poll list \<Rightarrow> exc option" where
  "supervise [] = None"
| "supervise (p # ps) =
     (if ctrl_c p then Some KeyboardInterrupt
      else case flag p of Some e \<Rightarrow> Some e | None \<Rightarrow> supervise ps)"

definition wiring :: "action list" where
  "wiring = [Register ''jd'' ''sa'', Register ''sa'' ''mc'']"

definition try_block :: "action list" where
  "try_block = [Start ''jd'', Start ''sa'']"

definition finally_block :: "action list" where
  "finally_block =
     [Disregister ''jd'' ''sa'', Disregister ''sa'' ''mc'', Kill ''jd'', Kill ''sa'']
     @ map Robot (issued (go_sleep init_cobot))
     @ map (\<lambda>i. Sleep 1) (rev [1..<11])
     @ [Robot Release_all_servos]"

text \<open>
  \<^verbatim>\<open>main\<close>, given the observations of the supervising loop and the moment of an interrupt
  during the \<^verbatim>\<open>finally\<close> block, if there is one. The result is \<open>None\<close> while the loop
  runs; otherwise the coordinator at the end and the exception that leaves \<^verbatim>\<open>main\<close>.
\<close>

definition main :: "poll list \<Rightarrow> nat option \<Rightarrow> (coordinator \<times> exc option) option" where
  "main polls k =
     (let c0 = \<lparr>observers = (\<lambda>_. []), log = map Robot (issued Customized_MyCobot)\<rparr>;
          c1 = fst (exec_block wiring None c0);
          c2 = fst (exec_block try_block None c1)
      in case supervise polls of
           None \<Rightarrow> None
         | Some e \<Rightarrow>
             (case exec_block finally_block k c2 of
                (c3, Some x) \<Rightarrow> Some (c3, Some x)
              | (c3, None) \<Rightarrow> Some (c3, if e = KeyboardInterrupt then None else Some e)))"

text \<open>What \<^verbatim>\<open>main\<close> did, and the exception that left it, when it has ended.\<close>

definition main_log :: "poll list \<Rightarrow> nat option \<Rightarrow> action list option" where
  "main_log polls k = map_option (\<lambda>r. log (fst r)) (main polls k)"

definition main_exc :: "poll list \<Rightarrow> nat option \<Rightarrow> exc option option" where
  "main_exc polls k = map_option snd (main polls k)"

subsection \<open>Notions of the specification\<close>

text \<open>
  The priority order in the specification's words: STAND, SLEEP, STOP, LED colour,
  rotate negative, rotate positive, joint decrement, joint increment. The button that
  decides a snapshot is the first of this order that is pressed.
\<close>

definition spec_priority :: "string list" where
  "spec_priority =
     [''A'', ''B'', ''X'', ''Y'', ''DPAD_LEFT'', ''DPAD_RIGHT'',
      ''LEFT_SHOULDER'', ''RIGHT_SHOULDER'']"

definition spec_first_pressed :: "string set \<Rightarrow> string option" where
  "spec_first_pressed bs = find (\<lambda>b. b \<in> bs) spec_priority"

text \<open>
  The action of each button of the priority order, in the specification's words: the
  standing pose at speed 50; the sleeping pose at speed 50; stop; the next LED colour;
  the selected joint towards its negative limit at speed 10, which is the static
  minimum for joints 1 to 5 and the reported angle minus 179, wrapped once by 360, for
  joint 6; the same towards the positive limit; the selected joint decremented, 1
  wrapping to 6; the selected joint incremented, 6 wrapping to 1. Reading a list out of
  range raises.
\<close>

definition spec_negative_target :: "(real \<Rightarrow> real) \<Rightarrow> real list \<Rightarrow> int \<Rightarrow> real option" where
  "spec_negative_target rnd angles j =
     (if j = 6 then
        map_option
          (\<lambda>a. if rnd (a - 179) < -180 then rnd (rnd (a - 179) + 360) else rnd (a - 179))
          (py_getitem angles 5)
      else py_getitem MIN_ANGLES (j - 1))"

definition spec_positive_target :: "(real \<Rightarrow> real) \<Rightarrow> real list \<Rightarrow> int \<Rightarrow> real option" where
  "spec_positive_target rnd angles j =
     (if j = 6 then
        map_option
          (\<lambda>a. if rnd (a + 179) > 180 then rnd (rnd (a + 179) - 360) else rnd (a + 179))
          (py_getitem angles 5)
      else py_getitem MAX_ANGLES (j - 1))"

definition spec_rotate :: "cobot \<Rightarrow> real option \<Rightarrow> outcome" where
  "spec_rotate s target =
     (case target of
        None \<Rightarrow> raises s IndexError
      | Some theta \<Rightarrow> returns s [Send_angle (joint s) theta 10])"

definition spec_action :: "(real \<Rightarrow> real) \<Rightarrow> real list \<Rightarrow> cobot \<Rightarrow> string \<Rightarrow> outcome" where
  "spec_action rnd angles s b =
     (if b = ''A'' then returns s [Send_angles [0, 0, 0, 0, 0, 0] 50]
      else if b = ''B'' then returns s [Send_angles [83, 140, -150, 154, 87, 0] 50]
      else if b = ''X'' then returns s [Stop]
      else if b = ''Y'' then next_color s
      else if b = ''DPAD_LEFT'' then spec_rotate s (spec_negative_target rnd angles (joint s))
      else if b = ''DPAD_RIGHT'' then spec_rotate s (spec_positive_target rnd angles (joint s))
      else if b = ''LEFT_SHOULDER'' then
        returns (s\<lparr>joint := (if joint s = 1 then 6 else joint s - 1)\<rparr>) []
      else if b = ''RIGHT_SHOULDER'' then
        returns (s\<lparr>joint := (if joint s = 6 then 1 else joint s + 1)\<rparr>) []
      else returns s [])"

text \<open>The four buttons of the termination combination.\<close>

definition spec_combo :: "string set" where
  "spec_combo = {''LEFT_SHOULDER'', ''RIGHT_SHOULDER'', ''START'', ''BACK''}"

text \<open>The robot after \<open>n\<close> calls of \<^verbatim>\<open>next_color\<close> on the freshly constructed one.\<close>

definition advanced :: "nat \<Rightarrow> cobot" where
  "advanced n = ((\<lambda>s. mc (next_color s)) ^^ n) init_cobot"

text \<open>The colour invariant: the channels add up to 255, each is a byte, one is dark.\<close>

definition spec_rgb_inv :: "int \<times> int \<times> int \<Rightarrow> bool" where
  "spec_rgb_inv c =
     (case c of (r, g, b) \<Rightarrow>
        r + g + b = 255 \<and> 0 \<le> r \<and> r \<le> 255 \<and> 0 \<le> g \<and> g \<le> 255 \<and> 0 \<le> b \<and> b \<le> 255 \<and>
        (r = 0 \<or> g = 0 \<or> b = 0))"

text \<open>A snapshot with the given buttons and both triggers and sticks at rest.\<close>

definition pressed :: "string set \<Rightarrow> signals" where
  "pressed bs = \<lparr>buttons = bs, triggers = [0, 0], sticks = [(0, 0), (0, 0)]\<rparr>"

subsection \<open>Concrete inputs\<close>

text \<open>A store in which the four buttons of the combination and A are pressed.\<close>

definition combo_store :: store where
  "combo_store = init_store\<lparr>set_objs := (set_objs init_store)(0 := insert ''A'' spec_combo)\<rparr>"

text \<open>Button A of controller 0 is pressed; is released.\<close>

definition press_A :: event where
  "press_A =
     \<lparr>user_index = 0, etype = EVENT_BUTTON_PRESSED, button = ''A'', trigger = 0, evalue = 0,
      stick = 0, dir = (0, 0)\<rparr>"

definition release_A :: event where
  "release_A = press_A\<lparr>etype := EVENT_BUTTON_RELEASED\<rparr>"

text \<open>The store of the constructor after A has been pressed.\<close>

definition store_A :: store where
  "store_A = init_store\<lparr>set_objs := (set_objs init_store)(0 := {''A''})\<rparr>"

text \<open>An iteration of the supervising loop during which Ctrl-C arrives.\<close>

definition ctrl_c_now :: poll where
  "ctrl_c_now = \<lparr>ctrl_c = True, flag = None\<rparr>"

text \<open>An iteration that sees nothing, and one that reads the stored interrupt.\<close>

definition quiet :: poll where
  "quiet = \<lparr>ctrl_c = False, flag = None\<rparr>"

definition flag_set :: poll where
  "flag_set = \<lparr>ctrl_c = False, flag = Some KeyboardInterrupt\<rparr>"

section \<open>Properties\<close>

subsection \<open>Rounding to binary64\<close>

lemma rhe_lower: "\<lfloor>r\<rfloor> \<le> round_half_even r"
  by (simp add: round_half_even_def Let_def)

lemma rhe_upper: "round_half_even r \<le> \<lfloor>r\<rfloor> + 1"
  by (simp add: round_half_even_def Let_def)

lemma rhe_int: "round_half_even (real_of_int k) = k"
  by (simp add: round_half_even_def Let_def)

lemma rhe_mono: "r \<le> r' \<Longrightarrow> round_half_even r \<le> round_half_even r'"
proof (cases "\<lfloor>r\<rfloor> = \<lfloor>r'\<rfloor>")
  case True
  assume "r \<le> r'"
  with True show ?thesis by (auto simp add: round_half_even_def Let_def)
next
  case False
  assume "r \<le> r'"
  then have "\<lfloor>r\<rfloor> \<le> \<lfloor>r'\<rfloor>" by (rule floor_mono)
  with False have "\<lfloor>r\<rfloor> + 1 \<le> \<lfloor>r'\<rfloor>" by simp
  with rhe_upper [of r] rhe_lower [of r'] show ?thesis by linarith
qed

lemma rhe_neg: "round_half_even (- r) = - round_half_even r"
proof (cases "r \<in> \<int>")
  case True
  then obtain k where "r = real_of_int k" by (auto elim: Ints_cases)
  then have "round_half_even r = k" "round_half_even (- r) = - k"
    using rhe_int [of k] rhe_int [of "- k"] by simp_all
  then show ?thesis by simp
next
  case False
  then have ne: "r \<noteq> real_of_int \<lfloor>r\<rfloor>" by (metis Ints_of_int)
  then have f: "\<lfloor>- r\<rfloor> = - \<lfloor>r\<rfloor> - 1"
    by (simp add: floor_minus ceiling_altdef)
  have lt: "real_of_int \<lfloor>r\<rfloor> < r"
  proof (rule le_neq_trans)
    show "real_of_int \<lfloor>r\<rfloor> \<le> r" by (rule of_int_floor_le)
    show "real_of_int \<lfloor>r\<rfloor> \<noteq> r" using ne by (rule not_sym)
  qed
  show ?thesis
    using lt unfolding round_half_even_def Let_def f
    by (auto simp add: algebra_simps)
qed


lemma ulp_pos: "0 < 2 powr real_of_int (ulp_exponent x)"
  by simp

lemma ulp_exponent_neg: "ulp_exponent (- x) = ulp_exponent x"
  by (simp add: ulp_exponent_def)

lemma binary64_neg: "binary64 (- x) = - binary64 x"
  by (simp add: binary64_def ulp_exponent_neg rhe_neg)

lemma binary64_nonneg:
  assumes "0 \<le> x"
  shows "0 \<le> binary64 x"
proof -
  from assms have "0 \<le> x / 2 powr real_of_int (ulp_exponent x)" by simp
  then have "round_half_even 0 \<le> round_half_even (x / 2 powr real_of_int (ulp_exponent x))"
    by (rule rhe_mono)
  moreover have "round_half_even 0 = 0" using rhe_int [of 0] by simp
  ultimately show ?thesis by (simp add: binary64_def)
qed

lemma log2_bounds:
  assumes "0 < x"
  shows "2 powr real_of_int \<lfloor>Transcendental.log 2 x\<rfloor> \<le> x"
    and "x < 2 powr (real_of_int \<lfloor>Transcendental.log 2 x\<rfloor> + 1)"
  using floor_log_eq_powr_iff [of x 2 "\<lfloor>Transcendental.log 2 x\<rfloor>"] assms by simp_all

lemma below_top:
  assumes "0 < x"
  shows "x / 2 powr real_of_int (ulp_exponent x) < 2 ^ 53"
proof -
  let ?l = "\<lfloor>Transcendental.log 2 x\<rfloor>"
  have "real_of_int ?l + 1 \<le> real_of_int (ulp_exponent x) + 53"
    using assms by (simp add: ulp_exponent_def)
  then have "2 powr (real_of_int ?l + 1) \<le> 2 powr (real_of_int (ulp_exponent x) + 53)"
    by simp
  with log2_bounds(2) [OF assms]
  have "x < 2 powr (real_of_int (ulp_exponent x) + 53)" by linarith
  also have "\<dots> = 2 powr real_of_int (ulp_exponent x) * 2 ^ 53"
    by (simp add: powr_add)
  finally show ?thesis by (simp add: pos_divide_less_eq mult.commute)
qed

lemma above_bottom:
  assumes "0 < x" and "- 1074 < ulp_exponent x"
  shows "2 ^ 52 \<le> x / 2 powr real_of_int (ulp_exponent x)"
proof -
  let ?l = "\<lfloor>Transcendental.log 2 x\<rfloor>"
  from assms have e: "real_of_int ?l = real_of_int (ulp_exponent x) + 52"
    by (simp add: ulp_exponent_def max_def split: if_splits)
  have "2 powr real_of_int (ulp_exponent x) * 2 ^ 52 = 2 powr (real_of_int (ulp_exponent x) + 52)"
    by (simp add: powr_add)
  also have "\<dots> \<le> x" using log2_bounds(1) [OF assms(1)] by (simp only: e)
  finally show ?thesis by (simp add: pos_le_divide_eq mult.commute)
qed

lemma ulp_exponent_mono:
  assumes "0 < x" and "x \<le> y"
  shows "ulp_exponent x \<le> ulp_exponent y"
proof -
  from assms have "Transcendental.log 2 x \<le> Transcendental.log 2 y" by simp
  then have "\<lfloor>Transcendental.log 2 x\<rfloor> \<le> \<lfloor>Transcendental.log 2 y\<rfloor>" by (rule floor_mono)
  with assms show ?thesis by (simp add: ulp_exponent_def)
qed

lemma binary64_mono_pos:
  assumes "0 < x" and "x \<le> y"
  shows "binary64 x \<le> binary64 y"
proof (cases "ulp_exponent x = ulp_exponent y")
  case True
  let ?u = "2 powr real_of_int (ulp_exponent y)"
  from assms(2) have "x / ?u \<le> y / ?u" by (simp add: divide_right_mono)
  then have "round_half_even (x / ?u) \<le> round_half_even (y / ?u)" by (rule rhe_mono)
  then have "real_of_int (round_half_even (x / ?u)) * ?u \<le> real_of_int (round_half_even (y / ?u)) * ?u"
    by (simp add: mult_right_mono)
  then show ?thesis by (simp add: binary64_def True)
next
  case False
  let ?ex = "ulp_exponent x" and ?ey = "ulp_exponent y"
  let ?ux = "2 powr real_of_int ?ex" and ?uy = "2 powr real_of_int ?ey"
  from assms have y: "0 < y" by simp
  from ulp_exponent_mono [OF assms] False have lt: "?ex + 1 \<le> ?ey" by simp
  have "- 1074 \<le> ?ex" by (simp add: ulp_exponent_def)
  with lt have ey: "- 1074 < ?ey" by simp
  have "round_half_even (x / ?ux) \<le> round_half_even (real_of_int (2 ^ 53))"
    using below_top [OF assms(1)] by (intro rhe_mono) simp
  then have "round_half_even (x / ?ux) \<le> 2 ^ 53" by (simp only: rhe_int)
  then have "real_of_int (round_half_even (x / ?ux)) \<le> 2 ^ 53"
    by (metis of_int_le_iff of_int_numeral of_int_power)
  then have bx: "binary64 x \<le> 2 ^ 53 * ?ux"
    by (simp add: binary64_def mult_right_mono)
  have "round_half_even (real_of_int (2 ^ 52)) \<le> round_half_even (y / ?uy)"
    using above_bottom [OF y ey] by (intro rhe_mono) simp
  then have "2 ^ 52 \<le> round_half_even (y / ?uy)" by (simp only: rhe_int)
  then have "2 ^ 52 \<le> real_of_int (round_half_even (y / ?uy))"
    by (metis of_int_le_iff of_int_numeral of_int_power)
  then have by': "2 ^ 52 * ?uy \<le> binary64 y"
    by (simp add: binary64_def mult_right_mono)
  from lt have "real_of_int ?ex + 1 \<le> real_of_int ?ey" by linarith
  then have "2 powr (real_of_int ?ex + 1) \<le> ?uy" by simp
  then have "2 * ?ux \<le> ?uy" by (simp add: powr_add mult.commute)
  then have "2 ^ 53 * ?ux \<le> 2 ^ 52 * ?uy" by simp
  with bx by' show ?thesis by linarith
qed

lemma binary64_mono:
  assumes "x \<le> y"
  shows "binary64 x \<le> binary64 y"
proof -
  consider "0 < x" | "x \<le> 0" "0 \<le> y" | "y < 0" by linarith
  then show ?thesis
  proof cases
    case 1
    then show ?thesis using assms by (rule binary64_mono_pos)
  next
    case 2
    from 2(1) have "0 \<le> binary64 (- x)" by (intro binary64_nonneg) simp
    then have "binary64 x \<le> 0" by (simp add: binary64_neg)
    with binary64_nonneg [OF 2(2)] show ?thesis by linarith
  next
    case 3
    with assms have "0 < - y" "- y \<le> - x" by simp_all
    then have "binary64 (- y) \<le> binary64 (- x)" by (rule binary64_mono_pos)
    then show ?thesis by (simp add: binary64_neg)
  qed
qed


lemma binary64_exact:
  assumes "x / 2 powr real_of_int (ulp_exponent x) = real_of_int m"
  shows "binary64 x = x"
proof -
  have "binary64 x = real_of_int m * 2 powr real_of_int (ulp_exponent x)"
    by (simp add: binary64_def assms rhe_int)
  also have "\<dots> = x" by (simp add: assms [symmetric])
  finally show ?thesis .
qed

lemma binary64_int_small:
  assumes "\<bar>k\<bar> < 2 ^ 53"
  shows "binary64 (real_of_int k) = real_of_int k"
proof (cases "k = 0")
  case True
  have "0 / 2 powr real_of_int (ulp_exponent 0) = real_of_int 0" by simp
  then have "binary64 0 = 0" by (rule binary64_exact)
  with True show ?thesis by simp
next
  case False
  let ?x = "real_of_int k"
  let ?e = "ulp_exponent ?x"
  from False have pos: "0 < \<bar>?x\<bar>" by simp
  from assms have "\<bar>?x\<bar> < 2 ^ 53"
    by (metis of_int_abs of_int_less_iff of_int_numeral of_int_power)
  then have "\<bar>?x\<bar> < 2 powr 53" by simp
  with pos have "Transcendental.log 2 \<bar>?x\<bar> < 53"
    by (simp add: log_less_iff)
  then have "\<lfloor>Transcendental.log 2 \<bar>?x\<bar>\<rfloor> < 53" by (simp add: floor_less_iff)
  then have e: "?e \<le> 0" by (simp add: ulp_exponent_def)
  then have "2 powr real_of_int ?e = inverse (2 ^ nat (- ?e))"
    by (cases "?e = 0") (simp_all add: powr_real_of_int)
  then have "?x / 2 powr real_of_int ?e = real_of_int (k * 2 ^ nat (- ?e))"
    by (simp add: field_simps)
  then show ?thesis by (rule binary64_exact)
qed

lemma binary64_top: "binary64 (2 ^ 53) = 2 ^ 53"
proof -
  have "\<lfloor>Transcendental.log 2 (2 ^ 53 :: real)\<rfloor> = 53"
    by (subst floor_log_eq_powr_iff) simp_all
  then have e: "ulp_exponent (2 ^ 53) = 1" by (simp add: ulp_exponent_def)
  have "(2 ^ 53 :: real) / 2 powr real_of_int (ulp_exponent (2 ^ 53)) = 2 ^ 53 / 2 powr 1"
    by (simp only: e of_int_1)
  also have "\<dots> = real_of_int (2 ^ 52)" by simp
  finally show ?thesis by (rule binary64_exact)
qed

lemma float_rounding_binary64: "float_rounding binary64"
proof -
  have "binary64 (real_of_int k) = real_of_int k" if k: "\<bar>k\<bar> \<le> 2 ^ 53" for k :: int
  proof -
    consider "\<bar>k\<bar> < 2 ^ 53" | "k = 2 ^ 53" | "k = - (2 ^ 53)" using k by linarith
    then show ?thesis
    proof cases
      case 1
      then show ?thesis by (rule binary64_int_small)
    next
      case 2
      with binary64_top show ?thesis by simp
    next
      case 3
      with binary64_top binary64_neg [of "2 ^ 53"] show ?thesis by simp
    qed
  qed
  then show ?thesis by (simp add: float_rounding_def binary64_mono)
qed

lemma binary64_near_minus_180: "binary64 (- (1 + 1 / 2 ^ 52) - 179) = - 180"
proof -
  define x :: real where "x = 180 + 1 / 2 ^ 52"
  have lo: "128 \<le> x" and hi: "x < 256" by (simp_all add: x_def)
  have b: "2 powr real_of_int 7 \<le> x \<and> x < 2 powr real_of_int (7 + 1)"
    using lo hi by simp
  have p: "0 < x" using lo by simp
  have "\<lfloor>Transcendental.log 2 x\<rfloor> = 7"
    by (rule floor_log_eq_powr_iff [THEN iffD2, OF p _ b]) simp
  moreover have "\<bar>x\<bar> = x" using lo by simp
  ultimately have e: "ulp_exponent x = - 45" by (simp add: ulp_exponent_def)
  have u: "2 powr real_of_int (- 45) = 1 / 2 ^ 45" by (simp add: powr_minus_divide)
  have q: "x / (1 / 2 ^ 45) = real_of_int (180 * 2 ^ 45) + 1 / 2 ^ 7"
    by (simp add: x_def)
  have r: "round_half_even (real_of_int (180 * 2 ^ 45) + 1 / 2 ^ 7) = 180 * 2 ^ 45"
  proof -
    have "\<lfloor>real_of_int (180 * 2 ^ 45) + 1 / 2 ^ 7\<rfloor> = 180 * 2 ^ 45"
      by (simp only: floor_eq_iff) simp
    then show ?thesis by (simp add: round_half_even_def Let_def)
  qed
  have "binary64 x = real_of_int (180 * 2 ^ 45) * (1 / 2 ^ 45)"
    by (simp only: binary64_def e u q r)
  then have "binary64 x = 180" by simp
  then have n: "binary64 (- x) = - 180" by (simp add: binary64_neg)
  have eq: "- (1 + 1 / 2 ^ 52) - 179 = - x" by (simp add: x_def)
  show ?thesis by (simp only: eq n)
qed

lemma ulp_exponent_binade:
  assumes "2 powr real_of_int k \<le> \<bar>x\<bar>" and "\<bar>x\<bar> < 2 powr real_of_int (k + 1)"
      and "- 1022 \<le> k"
  shows "ulp_exponent x = k - 52"
proof -
  have "0 < 2 powr real_of_int k" by simp
  with assms(1) have p: "0 < \<bar>x\<bar>" by linarith
  have "\<lfloor>Transcendental.log 2 \<bar>x\<bar>\<rfloor> = k"
    by (rule floor_log_eq_powr_iff [THEN iffD2, OF p _ conjI [OF assms(1,2)]]) simp
  with assms(3) show ?thesis by (simp add: ulp_exponent_def)
qed

lemma binary64_binade:
  assumes "2 powr real_of_int k \<le> \<bar>x\<bar>" and "\<bar>x\<bar> < 2 powr real_of_int (k + 1)"
      and "- 1022 \<le> k"
  shows "binary64 x =
           real_of_int (round_half_even (x / 2 powr real_of_int (k - 52)))
             * 2 powr real_of_int (k - 52)"
  by (simp only: binary64_def ulp_exponent_binade [OF assms])

text \<open>
  The double nearest to -1.01 is \<open>-4548635623644201 / 2\<^sup>5\<^sup>2\<close>. Subtracting 179 from it and
  adding 360 to the rounded difference, as the robot's left rotation of joint 6 does:
\<close>

lemma binary64_minus_180_01:
  "binary64 (- (4548635623644201 / 2 ^ 52) - 179) = - (6333538819710648 / 2 ^ 45)"
proof -
  define x :: real where "x = 4548635623644201 / 2 ^ 52 + 179"
  have lo: "128 \<le> x" and hi: "x < 256" by (simp_all add: x_def)
  have b: "2 powr real_of_int 7 \<le> \<bar>x\<bar>" "\<bar>x\<bar> < 2 powr real_of_int (7 + 1)"
    using lo hi by simp_all
  have u: "2 powr real_of_int (7 - 52) = 1 / 2 ^ 45" by (simp add: powr_minus_divide)
  have q: "x / (1 / 2 ^ 45) = real_of_int 6333538819710648 + 41 / 128"
    by (simp add: x_def)
  have r: "round_half_even (real_of_int 6333538819710648 + 41 / 128) = 6333538819710648"
  proof -
    have "\<lfloor>real_of_int 6333538819710648 + 41 / 128\<rfloor> = 6333538819710648"
      by (simp only: floor_eq_iff) simp
    then show ?thesis by (simp add: round_half_even_def Let_def)
  qed
  have "binary64 x = real_of_int 6333538819710648 * (1 / 2 ^ 45)"
    by (simp only: binary64_binade [OF b] u q r)
  then have n: "binary64 (- x) = - (6333538819710648 / 2 ^ 45)" by (simp add: binary64_neg)
  have eq: "- (4548635623644201 / 2 ^ 52) - 179 = - x" by (simp add: x_def)
  show ?thesis by (simp only: eq n)
qed

lemma binary64_179_99:
  "binary64 (- (6333538819710648 / 2 ^ 45) + 360) = 791604391533609 / 2 ^ 42"
proof -
  define x :: real where "x = - (6333538819710648 / 2 ^ 45) + 360"
  have v: "x = 791604391533609 / 2 ^ 42" by (simp add: x_def)
  have lo: "128 \<le> x" and hi: "x < 256" by (simp_all add: x_def)
  have b: "2 powr real_of_int 7 \<le> \<bar>x\<bar>" "\<bar>x\<bar> < 2 powr real_of_int (7 + 1)"
    using lo hi by simp_all
  have e: "ulp_exponent x = - 45" using ulp_exponent_binade [OF b] by simp
  have u: "2 powr real_of_int (- 45) = 1 / 2 ^ 45" by (simp add: powr_minus_divide)
  have "x / 2 powr real_of_int (ulp_exponent x) = real_of_int 6332835132268872"
    by (simp only: e u) (simp add: x_def)
  then have "binary64 x = x" by (rule binary64_exact)
  then show ?thesis by (simp only: x_def [symmetric] v)
qed

lemma binary64_minus_1_01: "binary64 (- (4548635623644201 / 2 ^ 52)) = - (4548635623644201 / 2 ^ 52)"
proof -
  define x :: real where "x = - (4548635623644201 / 2 ^ 52)"
  have lo: "1 \<le> \<bar>x\<bar>" and hi: "\<bar>x\<bar> < 2" by (simp_all add: x_def)
  have b: "2 powr real_of_int 0 \<le> \<bar>x\<bar>" "\<bar>x\<bar> < 2 powr real_of_int (0 + 1)"
    using lo hi by simp_all
  have e: "ulp_exponent x = - 52" using ulp_exponent_binade [OF b] by simp
  have u: "2 powr real_of_int (- 52) = 1 / 2 ^ 52" by (simp add: powr_minus_divide)
  have "x / 2 powr real_of_int (ulp_exponent x) = real_of_int (- 4548635623644201)"
    by (simp only: e u) (simp add: x_def)
  then have "binary64 x = x" by (rule binary64_exact)
  then show ?thesis by (simp only: x_def [symmetric])
qed

subsection \<open>The branches of \<^verbatim>\<open>Customized_MyCobot.update\<close>\<close>


lemma first_pressed_cases:
  assumes "spec_first_pressed bs = Some b"
  shows "(b = ''A'' \<and> ''A'' \<in> bs)
       \<or> (b = ''B'' \<and> ''A'' \<notin> bs \<and> ''B'' \<in> bs)
       \<or> (b = ''X'' \<and> ''A'' \<notin> bs \<and> ''B'' \<notin> bs \<and> ''X'' \<in> bs)
       \<or> (b = ''Y'' \<and> ''A'' \<notin> bs \<and> ''B'' \<notin> bs \<and> ''X'' \<notin> bs \<and> ''Y'' \<in> bs)
       \<or> (b = ''DPAD_LEFT'' \<and> ''A'' \<notin> bs \<and> ''B'' \<notin> bs \<and> ''X'' \<notin> bs \<and> ''Y'' \<notin> bs
            \<and> ''DPAD_LEFT'' \<in> bs)
       \<or> (b = ''DPAD_RIGHT'' \<and> ''A'' \<notin> bs \<and> ''B'' \<notin> bs \<and> ''X'' \<notin> bs \<and> ''Y'' \<notin> bs
            \<and> ''DPAD_LEFT'' \<notin> bs \<and> ''DPAD_RIGHT'' \<in> bs)
       \<or> (b = ''LEFT_SHOULDER'' \<and> ''A'' \<notin> bs \<and> ''B'' \<notin> bs \<and> ''X'' \<notin> bs \<and> ''Y'' \<notin> bs
            \<and> ''DPAD_LEFT'' \<notin> bs \<and> ''DPAD_RIGHT'' \<notin> bs \<and> ''LEFT_SHOULDER'' \<in> bs)
       \<or> (b = ''RIGHT_SHOULDER'' \<and> ''A'' \<notin> bs \<and> ''B'' \<notin> bs \<and> ''X'' \<notin> bs \<and> ''Y'' \<notin> bs
            \<and> ''DPAD_LEFT'' \<notin> bs \<and> ''DPAD_RIGHT'' \<notin> bs \<and> ''LEFT_SHOULDER'' \<notin> bs
            \<and> ''RIGHT_SHOULDER'' \<in> bs)"
  using assms
  by (simp add: spec_first_pressed_def spec_priority_def split: if_splits)

lemma first_pressed_None:
  assumes "spec_first_pressed bs = None"
  shows "''A'' \<notin> bs \<and> ''B'' \<notin> bs \<and> ''X'' \<notin> bs \<and> ''Y'' \<notin> bs
            \<and> ''DPAD_LEFT'' \<notin> bs \<and> ''DPAD_RIGHT'' \<notin> bs \<and> ''LEFT_SHOULDER'' \<notin> bs
            \<and> ''RIGHT_SHOULDER'' \<notin> bs"
  using assms
  by (simp add: spec_first_pressed_def spec_priority_def split: if_splits)

lemma combo_single: "get_combination_action (sg\<lparr>buttons := {b}\<rparr>) = None"
  by (auto simp add: get_combination_action_def)

lemma update_A:
  assumes "get_combination_action sg = None" "''A'' \<in> buttons sg"
  shows "cobot_update rnd angles s sg = returns s [Send_angles [0, 0, 0, 0, 0, 0] 50]"
proof -
  from assms(2) have "buttons sg \<noteq> {}" by blast
  with assms show ?thesis by (simp add: cobot_update_def)
qed

lemma update_B:
  assumes "get_combination_action sg = None" "''A'' \<notin> buttons sg" "''B'' \<in> buttons sg"
  shows "cobot_update rnd angles s sg = returns s [Send_angles [83, 140, -150, 154, 87, 0] 50]"
proof -
  from assms(3) have "buttons sg \<noteq> {}" by blast
  with assms show ?thesis by (simp add: cobot_update_def)
qed

lemma update_X:
  assumes "get_combination_action sg = None" "''A'' \<notin> buttons sg" "''B'' \<notin> buttons sg"
    "''X'' \<in> buttons sg"
  shows "cobot_update rnd angles s sg = returns s [Stop]"
proof -
  from assms(4) have "buttons sg \<noteq> {}" by blast
  with assms show ?thesis by (simp add: cobot_update_def)
qed

lemma update_Y:
  assumes "get_combination_action sg = None" "''A'' \<notin> buttons sg" "''B'' \<notin> buttons sg"
    "''X'' \<notin> buttons sg" "''Y'' \<in> buttons sg"
  shows "cobot_update rnd angles s sg = next_color s"
proof -
  from assms(5) have "buttons sg \<noteq> {}" by blast
  with assms show ?thesis by (simp add: cobot_update_def)
qed

lemma update_DPAD_LEFT:
  assumes "get_combination_action sg = None" "''A'' \<notin> buttons sg" "''B'' \<notin> buttons sg"
    "''X'' \<notin> buttons sg" "''Y'' \<notin> buttons sg" "''DPAD_LEFT'' \<in> buttons sg"
  shows "cobot_update rnd angles s sg =
          (if joint s = 6 then
             (case py_getitem angles 5 of
                None \<Rightarrow> raises s IndexError
              | Some a \<Rightarrow>
                  returns s
                    [Send_angle 6
                       (if rnd (a - 179) < -180 then rnd (rnd (a - 179) + 360) else rnd (a - 179))
                       10])
           else
             (case py_getitem MIN_ANGLES (joint s - 1) of
                None \<Rightarrow> raises s IndexError
              | Some theta \<Rightarrow> returns s [Send_angle (joint s) theta 10]))"
proof -
  from assms(6) have "buttons sg \<noteq> {}" by blast
  with assms show ?thesis by (simp add: cobot_update_def Let_def split: option.splits)
qed

lemma update_DPAD_RIGHT:
  assumes "get_combination_action sg = None" "''A'' \<notin> buttons sg" "''B'' \<notin> buttons sg"
    "''X'' \<notin> buttons sg" "''Y'' \<notin> buttons sg" "''DPAD_LEFT'' \<notin> buttons sg"
    "''DPAD_RIGHT'' \<in> buttons sg"
  shows "cobot_update rnd angles s sg =
          (if joint s = 6 then
             (case py_getitem angles 5 of
                None \<Rightarrow> raises s IndexError
              | Some a \<Rightarrow>
                  returns s
                    [Send_angle 6
                       (if rnd (a + 179) > 180 then rnd (rnd (a + 179) - 360) else rnd (a + 179))
                       10])
           else
             (case py_getitem MAX_ANGLES (joint s - 1) of
                None \<Rightarrow> raises s IndexError
              | Some theta \<Rightarrow> returns s [Send_angle (joint s) theta 10]))"
proof -
  from assms(7) have "buttons sg \<noteq> {}" by blast
  with assms show ?thesis by (simp add: cobot_update_def Let_def split: option.splits)
qed

lemma update_LEFT_SHOULDER:
  assumes "get_combination_action sg = None" "''A'' \<notin> buttons sg" "''B'' \<notin> buttons sg"
    "''X'' \<notin> buttons sg" "''Y'' \<notin> buttons sg" "''DPAD_LEFT'' \<notin> buttons sg"
    "''DPAD_RIGHT'' \<notin> buttons sg" "''LEFT_SHOULDER'' \<in> buttons sg"
  shows "cobot_update rnd angles s sg =
           returns (s\<lparr>joint := (if joint s = 1 then 6 else joint s - 1)\<rparr>) []"
proof -
  from assms(8) have "buttons sg \<noteq> {}" by blast
  with assms show ?thesis by (simp add: cobot_update_def)
qed

lemma update_RIGHT_SHOULDER:
  assumes "get_combination_action sg = None" "''A'' \<notin> buttons sg" "''B'' \<notin> buttons sg"
    "''X'' \<notin> buttons sg" "''Y'' \<notin> buttons sg" "''DPAD_LEFT'' \<notin> buttons sg"
    "''DPAD_RIGHT'' \<notin> buttons sg" "''LEFT_SHOULDER'' \<notin> buttons sg"
    "''RIGHT_SHOULDER'' \<in> buttons sg"
  shows "cobot_update rnd angles s sg =
           returns (s\<lparr>joint := (if joint s = 6 then 1 else joint s + 1)\<rparr>) []"
proof -
  from assms(9) have "buttons sg \<noteq> {}" by blast
  with assms show ?thesis by (simp add: cobot_update_def)
qed

lemma update_unrecognized:
  assumes "get_combination_action sg = None" "''A'' \<notin> buttons sg" "''B'' \<notin> buttons sg"
    "''X'' \<notin> buttons sg" "''Y'' \<notin> buttons sg" "''DPAD_LEFT'' \<notin> buttons sg"
    "''DPAD_RIGHT'' \<notin> buttons sg" "''LEFT_SHOULDER'' \<notin> buttons sg"
    "''RIGHT_SHOULDER'' \<notin> buttons sg"
  shows "cobot_update rnd angles s sg = returns s []"
  using assms by (simp add: cobot_update_def)

subsection \<open>The LED colour\<close>

lemma next_rgb_inv: "spec_rgb_inv c \<Longrightarrow> spec_rgb_inv (next_rgb c)"
  by (cases c) (auto simp add: spec_rgb_inv_def next_rgb_def Let_def max_def)

lemma color_next_color: "color (mc (next_color s)) = next_rgb (color s)"
  by (simp add: next_color_def returns_def split: prod.splits)

lemma advanced_0: "advanced 0 = init_cobot"
  by (simp add: advanced_def)

lemma advanced_Suc: "advanced (Suc n) = mc (next_color (advanced n))"
  by (simp add: advanced_def)

lemma color_advanced_Suc: "color (advanced (Suc n)) = next_rgb (color (advanced n))"
  by (simp add: advanced_Suc color_next_color)

lemma color_advanced_add: "color (advanced (n + k)) = (next_rgb ^^ n) (color (advanced k))"
  by (induction n) (simp_all add: color_advanced_Suc)

lemma color_advanced_24: "color (advanced 24) = (0, 255, 0)"
  by (simp add: eval_nat_numeral color_advanced_Suc advanced_0 init_cobot_def next_rgb_def)

text \<open>
  Claim C6. From the colour \<open>(0, 255, 0)\<close> of the constructor the first eight calls of
  \<^verbatim>\<open>next_color\<close> give exactly the colours listed: green goes down by 32 at each call,
  stopping at 0, and blue is 255 minus green. The eighth call reaches pure blue, where
  red and green are both zero. The sequence is bounded and repeats: after 24 calls the
  colour is \<open>(0, 255, 0)\<close> again, and from then on every colour is the one of 24 calls
  before.
\<close>

theorem next_color_first_eight:
  "map (\<lambda>n. color (advanced n)) [1, 2, 3, 4, 5, 6, 7, 8] =
     [(0, 223, 32), (0, 191, 64), (0, 159, 96), (0, 127, 128),
      (0, 95, 160), (0, 63, 192), (0, 31, 224), (0, 0, 255)]
   \<and> color (advanced 24) = (0, 255, 0)
   \<and> (\<forall>n. color (advanced (n + 24)) = color (advanced n))"
proof -
  have eight: "map (\<lambda>n. color (advanced n)) [1, 2, 3, 4, 5, 6, 7, 8] =
     [(0, 223, 32), (0, 191, 64), (0, 159, 96), (0, 127, 128),
      (0, 95, 160), (0, 63, 192), (0, 31, 224), (0, 0, 255)]"
    by (simp add: eval_nat_numeral color_advanced_Suc advanced_0 init_cobot_def next_rgb_def)
  have start: "color (advanced 0) = (0, 255, 0)"
    by (simp add: advanced_0 init_cobot_def)
  have period: "color (advanced (n + 24)) = color (advanced n)" for n
  proof -
    have "color (advanced (n + 24)) = (next_rgb ^^ n) (color (advanced 0))"
      by (simp only: color_advanced_add color_advanced_24 start)
    also have "\<dots> = color (advanced (n + 0))"
      by (simp only: color_advanced_add)
    finally show ?thesis by simp
  qed
  from eight color_advanced_24 period show ?thesis by blast
qed

text \<open>
  Claim C10. Starting from the colour \<open>(0, 255, 0)\<close> of the constructor, after any
  number of calls of \<^verbatim>\<open>next_color\<close> the three channels add up to 255, each lies between
  0 and 255, and at least one of them is zero.
\<close>

theorem next_color_invariant: "spec_rgb_inv (color (advanced n))"
proof (induction n)
  case 0
  show ?case by (simp add: advanced_0 init_cobot_def spec_rgb_inv_def)
next
  case (Suc n)
  then show ?case by (simp add: color_advanced_Suc next_rgb_inv)
qed

subsection \<open>Priority among pressed buttons\<close>

text \<open>
  Claim C1. When the termination combination is not pressed and \<open>b\<close> is the first button
  of the priority order A, B, X, Y, DPAD_LEFT, DPAD_RIGHT, LEFT_SHOULDER, RIGHT_SHOULDER
  that is pressed, \<^verbatim>\<open>update\<close> performs the action of \<open>b\<close> and nothing else: the standing
  pose for A, the sleeping pose for B, the stop for X, the next LED colour for Y, the
  rotation of the selected joint towards its negative limit for DPAD_LEFT and towards
  its positive limit for DPAD_RIGHT, the joint decrement for LEFT_SHOULDER and the joint
  increment for RIGHT_SHOULDER. This is also what \<^verbatim>\<open>update\<close> does when \<open>b\<close> is the only
  button pressed: the other pressed buttons have no effect.
\<close>

theorem update_priority:
  assumes "get_combination_action sg = None"
      and "spec_first_pressed (buttons sg) = Some b"
    shows "cobot_update rnd angles s sg = spec_action rnd angles s b
         \<and> cobot_update rnd angles s sg = cobot_update rnd angles s (sg\<lparr>buttons := {b}\<rparr>)"
proof -
  let ?one = "sg\<lparr>buttons := {b}\<rparr>"
  have one: "get_combination_action ?one = None" by (rule combo_single)
  note c = assms(1)
  from first_pressed_cases [OF assms(2)] show ?thesis
  proof (elim disjE conjE, goal_cases A B X Y DL DR LS RS)
    case A
    have "cobot_update rnd angles s ?one = returns s [Send_angles [0, 0, 0, 0, 0, 0] 50]"
      by (rule update_A [OF one]) (simp add: A(1))
    with update_A [OF c A(2), of rnd angles s] show ?thesis
      by (simp add: spec_action_def A(1))
  next
    case B
    have "cobot_update rnd angles s ?one = returns s [Send_angles [83, 140, -150, 154, 87, 0] 50]"
      by (rule update_B [OF one]) (simp_all add: B(1))
    with update_B [OF c B(2,3), of rnd angles s] show ?thesis
      by (simp add: spec_action_def B(1))
  next
    case X
    have "cobot_update rnd angles s ?one = returns s [Stop]"
      by (rule update_X [OF one]) (simp_all add: X(1))
    with update_X [OF c X(2-), of rnd angles s] show ?thesis
      by (simp add: spec_action_def X(1))
  next
    case Y
    have "cobot_update rnd angles s ?one = next_color s"
      by (rule update_Y [OF one]) (simp_all add: Y(1))
    with update_Y [OF c Y(2-), of rnd angles s] show ?thesis
      by (simp add: spec_action_def Y(1))
  next
    case DL
    have o: "cobot_update rnd angles s ?one = cobot_update rnd angles s sg"
      unfolding update_DPAD_LEFT [OF c DL(2-)]
      by (rule update_DPAD_LEFT [OF one]) (simp_all add: DL(1))
    have "cobot_update rnd angles s sg = spec_action rnd angles s b"
      unfolding update_DPAD_LEFT [OF c DL(2-)]
      by (simp add: spec_action_def DL(1) spec_rotate_def spec_negative_target_def
            split: option.splits)
    with o show ?thesis by simp
  next
    case DR
    have o: "cobot_update rnd angles s ?one = cobot_update rnd angles s sg"
      unfolding update_DPAD_RIGHT [OF c DR(2-)]
      by (rule update_DPAD_RIGHT [OF one]) (simp_all add: DR(1))
    have "cobot_update rnd angles s sg = spec_action rnd angles s b"
      unfolding update_DPAD_RIGHT [OF c DR(2-)]
      by (simp add: spec_action_def DR(1) spec_rotate_def spec_positive_target_def
            split: option.splits)
    with o show ?thesis by simp
  next
    case LS
    have o: "cobot_update rnd angles s ?one = cobot_update rnd angles s sg"
      unfolding update_LEFT_SHOULDER [OF c LS(2-)]
      by (rule update_LEFT_SHOULDER [OF one]) (simp_all add: LS(1))
    have "cobot_update rnd angles s sg = spec_action rnd angles s b"
      unfolding update_LEFT_SHOULDER [OF c LS(2-)]
      by (simp add: spec_action_def LS(1))
    with o show ?thesis by simp
  next
    case RS
    have o: "cobot_update rnd angles s ?one = cobot_update rnd angles s sg"
      unfolding update_RIGHT_SHOULDER [OF c RS(2-)]
      by (rule update_RIGHT_SHOULDER [OF one]) (simp_all add: RS(1))
    have "cobot_update rnd angles s sg = spec_action rnd angles s b"
      unfolding update_RIGHT_SHOULDER [OF c RS(2-)]
      by (simp add: spec_action_def RS(1))
    with o show ?thesis by simp
  qed
qed

text \<open>
  With A and Y pressed together only the standing pose is sent and the colour does not
  change; with B and X pressed together only the sleeping pose is sent.
\<close>

theorem update_priority_witness:
  "get_combination_action (pressed {''A'', ''Y''}) = None
   \<and> spec_first_pressed (buttons (pressed {''A'', ''Y''})) = Some ''A''
   \<and> cobot_update binary64 [] init_cobot (pressed {''A'', ''Y''})
       = \<lparr>mc = init_cobot, issued = [Send_angles [0, 0, 0, 0, 0, 0] 50], raised = None\<rparr>
   \<and> get_combination_action (pressed {''B'', ''X''}) = None
   \<and> spec_first_pressed (buttons (pressed {''B'', ''X''})) = Some ''B''
   \<and> cobot_update binary64 [] init_cobot (pressed {''B'', ''X''})
       = \<lparr>mc = init_cobot, issued = [Send_angles [83, 140, -150, 154, 87, 0] 50],
          raised = None\<rparr>"
proof -
  have c: "get_combination_action (pressed {''A'', ''Y''}) = None"
    by (simp add: get_combination_action_def pressed_def)
  have f: "spec_first_pressed (buttons (pressed {''A'', ''Y''})) = Some ''A''"
    by (simp add: spec_first_pressed_def spec_priority_def pressed_def)
  have c': "get_combination_action (pressed {''B'', ''X''}) = None"
    by (simp add: get_combination_action_def pressed_def)
  have f': "spec_first_pressed (buttons (pressed {''B'', ''X''})) = Some ''B''"
    by (simp add: spec_first_pressed_def spec_priority_def pressed_def)
  have a: "spec_action binary64 [] init_cobot ''A''
             = \<lparr>mc = init_cobot, issued = [Send_angles [0, 0, 0, 0, 0, 0] 50], raised = None\<rparr>"
    by (simp add: spec_action_def returns_def)
  have b: "spec_action binary64 [] init_cobot ''B''
             = \<lparr>mc = init_cobot, issued = [Send_angles [83, 140, -150, 154, 87, 0] 50],
                raised = None\<rparr>"
    by (simp add: spec_action_def returns_def)
  from update_priority [OF c f, of binary64 "[]" init_cobot]
       update_priority [OF c' f', of binary64 "[]" init_cobot] c f c' f' a b
  show ?thesis by simp
qed

subsection \<open>The termination combination\<close>

lemma combo_action:
  "spec_combo \<subseteq> buttons sg \<Longrightarrow> get_combination_action sg = Some ''end_program''"
  by (simp add: spec_combo_def get_combination_action_def)

lemma update_combo:
  assumes "spec_combo \<subseteq> buttons sg"
  shows "cobot_update rnd angles s sg = raises s KeyboardInterrupt"
proof -
  from assms have "''START'' \<in> buttons sg" by (simp add: spec_combo_def)
  then have "buttons sg \<noteq> {}" by (rule_tac notI) simp
  with combo_action [OF assms] show ?thesis by (simp add: cobot_update_def)
qed

lemma run_cut:
  assumes "\<And>s. raised (adapter_notify rnd a h angles s) = Some KeyboardInterrupt"
  shows "adapter_run rnd a s0 (pre @ (h, angles) # rest) = adapter_run rnd a s0 (pre @ [(h, angles)])"
proof (induction pre arbitrary: s0)
  case Nil
  show ?case using assms [of s0] by (simp add: Let_def)
next
  case (Cons t pre)
  obtain h' angles' where t: "t = (h', angles')" by (cases t)
  show ?case
    by (cases "raised (adapter_notify rnd a h' angles' s0)") (simp_all add: t Let_def Cons.IH)
qed

text \<open>
  Claim C2. When LEFT_SHOULDER, RIGHT_SHOULDER, START and BACK are all pressed at a tick,
  the robot's \<^verbatim>\<open>update\<close> raises \<^verbatim>\<open>KeyboardInterrupt\<close>, sends no command and leaves the
  robot unchanged. The loop of the adapter's \<^verbatim>\<open>run\<close> catches the exception, stores it
  in \<^verbatim>\<open>keyboard_interrupt\<close> and returns: the ticks that would follow are not processed,
  whatever came before.
\<close>

theorem combo_terminates:
  assumes "spec_combo \<subseteq> set_objs h (pressed_button a)"
  shows "cobot_update rnd angles s (deref h (notify_dict a))
           = \<lparr>mc = s, issued = [], raised = Some KeyboardInterrupt\<rparr>
       \<and> adapter_run rnd a s ((h, angles) # rest)
           = \<lparr>sa = a\<lparr>keyboard_interrupt := Some KeyboardInterrupt\<rparr>, robot = s, sent = [],
              thread = Returned\<rparr>
       \<and> adapter_run rnd a s (pre @ (h, angles) # rest) = adapter_run rnd a s (pre @ [(h, angles)])"
proof -
  have b: "spec_combo \<subseteq> buttons (deref h (notify_dict a))"
    using assms by (simp add: deref_def notify_dict_def)
  have u: "cobot_update rnd angles t (deref h (notify_dict a)) = raises t KeyboardInterrupt" for t
    by (rule update_combo [OF b])
  then have n: "adapter_notify rnd a h angles t = raises t KeyboardInterrupt" for t
    by (simp add: adapter_notify_def)
  then have r: "adapter_run rnd a s ((h, angles) # rest)
           = \<lparr>sa = a\<lparr>keyboard_interrupt := Some KeyboardInterrupt\<rparr>, robot = s, sent = [],
              thread = Returned\<rparr>"
    by (simp add: raises_def Let_def)
  have "raised (adapter_notify rnd a h angles t) = Some KeyboardInterrupt" for t
    by (simp add: n raises_def)
  then have c: "adapter_run rnd a s (pre @ (h, angles) # rest) = adapter_run rnd a s (pre @ [(h, angles)])"
    by (rule run_cut)
  from u [of s] r c show ?thesis by (simp add: raises_def)
qed

text \<open>The combination pressed together with A, at the first tick and after an idle tick.\<close>

theorem combo_terminates_witness:
  "spec_combo \<subseteq> set_objs combo_store (pressed_button init_adapter)
   \<and> cobot_update binary64 [] init_cobot (deref combo_store (notify_dict init_adapter))
       = \<lparr>mc = init_cobot, issued = [], raised = Some KeyboardInterrupt\<rparr>
   \<and> adapter_run binary64 init_adapter init_cobot ((combo_store, []) # [(combo_store, [])])
       = \<lparr>sa = init_adapter\<lparr>keyboard_interrupt := Some KeyboardInterrupt\<rparr>,
          robot = init_cobot, sent = [], thread = Returned\<rparr>
   \<and> adapter_run binary64 init_adapter init_cobot ([(init_store, [])] @ (combo_store, []) # [(combo_store, [])])
       = adapter_run binary64 init_adapter init_cobot ([(init_store, [])] @ [(combo_store, [])])"
proof -
  have h: "spec_combo \<subseteq> set_objs combo_store (pressed_button init_adapter)"
    by (simp add: combo_store_def init_adapter_def subset_insertI)
  from combo_terminates [OF h, of binary64 "[]" init_cobot "[(combo_store, [])]" "[(init_store, [])]"] h
  show ?thesis by simp
qed

subsection \<open>Commands per snapshot\<close>

lemma next_color_issued: "length (issued (next_color s)) = 1 \<and> raised (next_color s) = None"
  by (simp add: next_color_def returns_def split: prod.splits)

text \<open>
  Claim C3 says that every snapshot with a pressed button, the combination apart, makes
  \<^verbatim>\<open>update\<close> send exactly one command, also in the two shoulder branches. With only
  LEFT_SHOULDER pressed the snapshot is not empty and is not the combination, and no
  command is sent: the branch changes the selected joint and nothing else.
\<close>

theorem shoulder_issues_no_command:
  "buttons (pressed {''LEFT_SHOULDER''}) \<noteq> {}
   \<and> get_combination_action (pressed {''LEFT_SHOULDER''}) = None
   \<and> length (issued (cobot_update binary64 [0, 0, 0, 0, 0, 0] init_cobot (pressed {''LEFT_SHOULDER''}))) \<noteq> 1"
  by (simp add: pressed_def get_combination_action_def cobot_update_def init_cobot_def returns_def)

text \<open>
  Claim C3, amended. For a snapshot that is not the combination, \<^verbatim>\<open>update\<close> sends at most
  one command. It sends none when no button of the priority order is pressed, and none
  when the deciding button is LEFT_SHOULDER or RIGHT_SHOULDER. When the deciding button
  is A, B, X, Y, DPAD_LEFT or DPAD_RIGHT it sends exactly one command if it returns, and
  none if it raises (the robot reported fewer angles than the index asks for).
\<close>

theorem update_issues_at_most_one:
  assumes "get_combination_action sg = None"
  shows "(case spec_first_pressed (buttons sg) of
            None \<Rightarrow> issued (cobot_update rnd angles s sg) = []
          | Some b \<Rightarrow>
              if b = ''LEFT_SHOULDER'' \<or> b = ''RIGHT_SHOULDER''
              then issued (cobot_update rnd angles s sg) = []
              else if raised (cobot_update rnd angles s sg) = None
              then length (issued (cobot_update rnd angles s sg)) = 1
              else issued (cobot_update rnd angles s sg) = [])"
proof (cases "spec_first_pressed (buttons sg)")
  case None
  from first_pressed_None [OF None] assms
  have "cobot_update rnd angles s sg = returns s []"
    by (simp add: update_unrecognized)
  with None show ?thesis by (simp add: returns_def)
next
  case (Some b)
  note c = assms
  from first_pressed_cases [OF Some] show ?thesis
  proof (elim disjE conjE, goal_cases A B X Y DL DR LS RS)
    case A
    with update_A [OF c A(2), of rnd angles s] Some show ?thesis by (simp add: returns_def)
  next
    case B
    with update_B [OF c B(2-), of rnd angles s] Some show ?thesis by (simp add: returns_def)
  next
    case X
    with update_X [OF c X(2-), of rnd angles s] Some show ?thesis by (simp add: returns_def)
  next
    case Y
    with update_Y [OF c Y(2-), of rnd angles s] next_color_issued [of s] Some show ?thesis
      by simp
  next
    case DL
    with update_DPAD_LEFT [OF c DL(2-), of rnd angles s] Some show ?thesis
      by (simp add: returns_def raises_def split: option.splits)
  next
    case DR
    with update_DPAD_RIGHT [OF c DR(2-), of rnd angles s] Some show ?thesis
      by (simp add: returns_def raises_def split: option.splits)
  next
    case LS
    with update_LEFT_SHOULDER [OF c LS(2-), of rnd angles s] Some show ?thesis
      by (simp add: returns_def)
  next
    case RS
    with update_RIGHT_SHOULDER [OF c RS(2-), of rnd angles s] Some show ?thesis
      by (simp add: returns_def)
  qed
qed

text \<open>X and LEFT_SHOULDER pressed together: one command, the stop.\<close>

theorem update_issues_at_most_one_witness:
  "get_combination_action (pressed {''X'', ''LEFT_SHOULDER''}) = None
   \<and> spec_first_pressed (buttons (pressed {''X'', ''LEFT_SHOULDER''})) = Some ''X''
   \<and> raised (cobot_update binary64 [] init_cobot (pressed {''X'', ''LEFT_SHOULDER''})) = None
   \<and> length (issued (cobot_update binary64 [] init_cobot (pressed {''X'', ''LEFT_SHOULDER''}))) = 1"
proof -
  have c: "get_combination_action (pressed {''X'', ''LEFT_SHOULDER''}) = None"
    by (simp add: get_combination_action_def pressed_def)
  have f: "spec_first_pressed (buttons (pressed {''X'', ''LEFT_SHOULDER''})) = Some ''X''"
    by (simp add: spec_first_pressed_def spec_priority_def pressed_def)
  have r: "raised (cobot_update binary64 [] init_cobot (pressed {''X'', ''LEFT_SHOULDER''})) = None"
    by (simp add: cobot_update_def get_combination_action_def pressed_def returns_def)
  from update_issues_at_most_one [OF c, of binary64 "[]" init_cobot] c f r show ?thesis by simp
qed

subsection \<open>The joint ring\<close>

lemma funpow_field:
  assumes "\<And>t. g (f t) = d (g t)"
  shows "g ((f ^^ n) s) = (d ^^ n) (g s)"
  by (induction n) (simp_all add: assms)

lemma dec_ring:
  assumes "1 \<le> j" "j \<le> 6"
  shows "((\<lambda>i::int. if i = 1 then 6 else i - 1) ^^ 6) j = j"
proof -
  from assms have "j = 1 \<or> j = 2 \<or> j = 3 \<or> j = 4 \<or> j = 5 \<or> j = 6" by arith
  then show ?thesis by (elim disjE) (simp_all add: eval_nat_numeral)
qed

lemma inc_ring:
  assumes "1 \<le> j" "j \<le> 6"
  shows "((\<lambda>i::int. if i = 6 then 1 else i + 1) ^^ 6) j = j"
proof -
  from assms have "j = 1 \<or> j = 2 \<or> j = 3 \<or> j = 4 \<or> j = 5 \<or> j = 6" by arith
  then show ?thesis by (elim disjE) (simp_all add: eval_nat_numeral)
qed

lemma left_shoulder_step:
  assumes "get_combination_action sg = None"
      and "spec_first_pressed (buttons sg) = Some ''LEFT_SHOULDER''"
  shows "cobot_update rnd angles t sg = returns (t\<lparr>joint := (if joint t = 1 then 6 else joint t - 1)\<rparr>) []"
  using first_pressed_cases [OF assms(2)]
  by (elim disjE conjE) (simp_all add: update_LEFT_SHOULDER [OF assms(1)])

lemma right_shoulder_step:
  assumes "get_combination_action sg = None"
      and "spec_first_pressed (buttons sg) = Some ''RIGHT_SHOULDER''"
  shows "cobot_update rnd angles t sg = returns (t\<lparr>joint := (if joint t = 6 then 1 else joint t + 1)\<rparr>) []"
  using first_pressed_cases [OF assms(2)]
  by (elim disjE conjE) (simp_all add: update_RIGHT_SHOULDER [OF assms(1)])

text \<open>
  Claim C4. For a selected joint between 1 and 6, six consecutive ticks that take the
  LEFT_SHOULDER branch bring the selected joint back to where it was, and so do six
  ticks that take the RIGHT_SHOULDER branch. One decrement turns 1 into 6 and any other
  joint into the one below; one increment turns 6 into 1 and any other joint into the
  one above.
\<close>

theorem joint_ring:
  assumes "1 \<le> joint s" and "joint s \<le> 6"
      and "get_combination_action sgl = None"
      and "spec_first_pressed (buttons sgl) = Some ''LEFT_SHOULDER''"
      and "get_combination_action sgr = None"
      and "spec_first_pressed (buttons sgr) = Some ''RIGHT_SHOULDER''"
  shows "joint (((\<lambda>t. mc (cobot_update rnd angles t sgl)) ^^ 6) s) = joint s
       \<and> joint (((\<lambda>t. mc (cobot_update rnd angles t sgr)) ^^ 6) s) = joint s
       \<and> joint (mc (cobot_update rnd angles s sgl)) = (if joint s = 1 then 6 else joint s - 1)
       \<and> joint (mc (cobot_update rnd angles s sgr)) = (if joint s = 6 then 1 else joint s + 1)"
proof -
  have l: "joint (mc (cobot_update rnd angles t sgl)) = (if joint t = 1 then 6 else joint t - 1)" for t
    by (simp add: left_shoulder_step [OF assms(3,4)] returns_def)
  have r: "joint (mc (cobot_update rnd angles t sgr)) = (if joint t = 6 then 1 else joint t + 1)" for t
    by (simp add: right_shoulder_step [OF assms(5,6)] returns_def)
  have "joint (((\<lambda>t. mc (cobot_update rnd angles t sgl)) ^^ 6) s)
          = ((\<lambda>i. if i = 1 then 6 else i - 1) ^^ 6) (joint s)"
    by (rule funpow_field) (rule l)
  then have l6: "joint (((\<lambda>t. mc (cobot_update rnd angles t sgl)) ^^ 6) s) = joint s"
    by (simp only: dec_ring [OF assms(1,2)])
  have "joint (((\<lambda>t. mc (cobot_update rnd angles t sgr)) ^^ 6) s)
          = ((\<lambda>i. if i = 6 then 1 else i + 1) ^^ 6) (joint s)"
    by (rule funpow_field) (rule r)
  then have r6: "joint (((\<lambda>t. mc (cobot_update rnd angles t sgr)) ^^ 6) s) = joint s"
    by (simp only: inc_ring [OF assms(1,2)])
  from l6 r6 l [of s] r [of s] show ?thesis by (intro conjI)
qed

text \<open>From joint 1 of the constructor: down to 6, up to 2, and back to 1 after six steps.\<close>

theorem joint_ring_witness:
  "1 \<le> joint init_cobot \<and> joint init_cobot \<le> 6
   \<and> get_combination_action (pressed {''LEFT_SHOULDER''}) = None
   \<and> spec_first_pressed (buttons (pressed {''LEFT_SHOULDER''})) = Some ''LEFT_SHOULDER''
   \<and> get_combination_action (pressed {''RIGHT_SHOULDER''}) = None
   \<and> spec_first_pressed (buttons (pressed {''RIGHT_SHOULDER''})) = Some ''RIGHT_SHOULDER''
   \<and> joint (((\<lambda>t. mc (cobot_update binary64 [] t (pressed {''LEFT_SHOULDER''}))) ^^ 6) init_cobot) = 1
   \<and> joint (((\<lambda>t. mc (cobot_update binary64 [] t (pressed {''RIGHT_SHOULDER''}))) ^^ 6) init_cobot) = 1
   \<and> joint (mc (cobot_update binary64 [] init_cobot (pressed {''LEFT_SHOULDER''}))) = 6
   \<and> joint (mc (cobot_update binary64 [] init_cobot (pressed {''RIGHT_SHOULDER''}))) = 2"
proof -
  have j: "1 \<le> joint init_cobot" "joint init_cobot \<le> 6" "joint init_cobot = 1"
    by (simp_all add: init_cobot_def)
  have cl: "get_combination_action (pressed {''LEFT_SHOULDER''}) = None"
    by (simp add: get_combination_action_def pressed_def)
  have fl: "spec_first_pressed (buttons (pressed {''LEFT_SHOULDER''})) = Some ''LEFT_SHOULDER''"
    by (simp add: spec_first_pressed_def spec_priority_def pressed_def)
  have cr: "get_combination_action (pressed {''RIGHT_SHOULDER''}) = None"
    by (simp add: get_combination_action_def pressed_def)
  have fr: "spec_first_pressed (buttons (pressed {''RIGHT_SHOULDER''})) = Some ''RIGHT_SHOULDER''"
    by (simp add: spec_first_pressed_def spec_priority_def pressed_def)
  from joint_ring [OF j(1,2) cl fl cr fr, of binary64 "[]"] j cl fl cr fr show ?thesis by simp
qed

subsection \<open>Rotating joint 6\<close>

text \<open>
  At the reported angle -1.01 the left rotation of joint 6 sends
  \<open>791604391533609 / 2\<^sup>4\<^sup>2\<close>, the double nearest to 179.99.
\<close>

lemma left_at_minus_1_01:
  "issued (cobot_update binary64 [0, 0, 0, 0, 0, - (4548635623644201 / 2 ^ 52)]
             (init_cobot\<lparr>joint := 6\<rparr>) (pressed {''DPAD_LEFT''}))
     = [Send_angle 6 (791604391533609 / 2 ^ 42) 10]"
proof -
  define A :: real where "A = - (4548635623644201 / 2 ^ 52)"
  have t1: "binary64 (A - 179) = - (6333538819710648 / 2 ^ 45)"
    unfolding A_def by (rule binary64_minus_180_01)
  have t2: "binary64 (- (6333538819710648 / 2 ^ 45) + 360) = 791604391533609 / 2 ^ 42"
    by (rule binary64_179_99)
  have lt: "- (6333538819710648 / 2 ^ 45) < (- 180 :: real)" by simp
  have g: "py_getitem [0, 0, 0, 0, 0, A] 5 = Some A"
    by (simp add: py_getitem_def eval_nat_numeral)
  have c: "get_combination_action (pressed {''DPAD_LEFT''}) = None"
    by (simp add: get_combination_action_def pressed_def)
  have "cobot_update binary64 [0, 0, 0, 0, 0, A] (init_cobot\<lparr>joint := 6\<rparr>)
          (pressed {''DPAD_LEFT''}) =
        returns (init_cobot\<lparr>joint := 6\<rparr>)
          [Send_angle 6
             (if binary64 (A - 179) < -180 then binary64 (binary64 (A - 179) + 360)
              else binary64 (A - 179)) 10]"
  proof -
    have m: "''A'' \<notin> buttons (pressed {''DPAD_LEFT''})"
            "''B'' \<notin> buttons (pressed {''DPAD_LEFT''})"
            "''X'' \<notin> buttons (pressed {''DPAD_LEFT''})"
            "''Y'' \<notin> buttons (pressed {''DPAD_LEFT''})"
            "''DPAD_LEFT'' \<in> buttons (pressed {''DPAD_LEFT''})"
      by (simp_all add: pressed_def)
    show ?thesis
      by (simp only: update_DPAD_LEFT [OF c m]) (simp add: g)
  qed
  then have "cobot_update binary64 [0, 0, 0, 0, 0, A] (init_cobot\<lparr>joint := 6\<rparr>)
          (pressed {''DPAD_LEFT''}) =
        returns (init_cobot\<lparr>joint := 6\<rparr>) [Send_angle 6 (791604391533609 / 2 ^ 42) 10]"
    by (simp only: t1 lt if_True t2)
  then have "issued (cobot_update binary64 [0, 0, 0, 0, 0, A] (init_cobot\<lparr>joint := 6\<rparr>)
          (pressed {''DPAD_LEFT''})) = [Send_angle 6 (791604391533609 / 2 ^ 42) 10]"
    by (simp only: returns_def outcome.simps)
  then show ?thesis unfolding A_def .
qed

text \<open>
  Claim C5. When joint 6 is selected and the robot reports the angle \<open>a\<close> between -180
  and 180 for it, the DPAD_LEFT branch sends joint 6 to \<open>a - 179\<close>, plus 360 if that is
  below -180, and the DPAD_RIGHT branch sends it to \<open>a + 179\<close>, minus 360 if that is
  above 180, each operation being the one of float arithmetic. Both angles sent lie
  between -180 and 180. This holds for every rounding that is monotone and leaves the
  integers up to \<open>2\<^sup>5\<^sup>3\<close> as they are, as the rounding of binary64 does.
\<close>

theorem joint6_wrap:
  assumes "float_rounding rnd"
      and "joint s = 6" and "length angles = 6" and "angles ! 5 = a"
      and "-180 \<le> a" and "a \<le> 180"
      and "get_combination_action sgl = None"
      and "spec_first_pressed (buttons sgl) = Some ''DPAD_LEFT''"
      and "get_combination_action sgr = None"
      and "spec_first_pressed (buttons sgr) = Some ''DPAD_RIGHT''"
  shows "cobot_update rnd angles s sgl =
           \<lparr>mc = s,
            issued = [Send_angle 6
                        (if rnd (a - 179) < -180 then rnd (rnd (a - 179) + 360)
                         else rnd (a - 179)) 10],
            raised = None\<rparr>
       \<and> -180 \<le> (if rnd (a - 179) < -180 then rnd (rnd (a - 179) + 360) else rnd (a - 179))
       \<and> (if rnd (a - 179) < -180 then rnd (rnd (a - 179) + 360) else rnd (a - 179)) \<le> 180
       \<and> cobot_update rnd angles s sgr =
           \<lparr>mc = s,
            issued = [Send_angle 6
                        (if rnd (a + 179) > 180 then rnd (rnd (a + 179) - 360)
                         else rnd (a + 179)) 10],
            raised = None\<rparr>
       \<and> -180 \<le> (if rnd (a + 179) > 180 then rnd (rnd (a + 179) - 360) else rnd (a + 179))
       \<and> (if rnd (a + 179) > 180 then rnd (rnd (a + 179) - 360) else rnd (a + 179)) \<le> 180"
proof -
  have mono: "rnd x \<le> rnd y" if "x \<le> y" for x y
    using assms(1) that by (simp add: float_rounding_def)
  have exact: "rnd (real_of_int k) = real_of_int k" if "\<bar>k\<bar> \<le> 360" for k :: int
  proof -
    from that have "\<bar>k\<bar> \<le> 2 ^ 53" by simp
    with assms(1) show ?thesis by (simp add: float_rounding_def)
  qed
  have f359: "rnd 359 = 359" using exact [of 359] by simp
  have f180: "rnd 180 = 180" using exact [of 180] by simp
  have f1: "rnd 1 = 1" using exact [of 1] by simp
  have m1: "rnd (- 1) = - 1" using exact [of "- 1"] by simp
  have m180: "rnd (- 180) = - 180" using exact [of "- 180"] by simp
  have m359: "rnd (- 359) = - 359" using exact [of "- 359"] by simp
  define tn where "tn = rnd (a - 179)"
  define tp where "tp = rnd (a + 179)"
  have tn: "- 359 \<le> tn" "tn \<le> 1"
    using mono [of "- 359" "a - 179"] mono [of "a - 179" 1] assms(5,6)
    by (simp_all add: tn_def m359 f1)
  have tp: "- 1 \<le> tp" "tp \<le> 359"
    using mono [of "- 1" "a + 179"] mono [of "a + 179" 359] assms(5,6)
    by (simp_all add: tp_def m1 f359)
  have wl: "1 \<le> rnd (tn + 360)" "rnd (tn + 360) \<le> 180" if "tn < - 180"
    using mono [of 1 "tn + 360"] mono [of "tn + 360" 180] tn that
    by (simp_all add: f1 f180)
  have wr: "- 180 \<le> rnd (tp - 360)" "rnd (tp - 360) \<le> - 1" if "180 < tp"
    using mono [of "- 180" "tp - 360"] mono [of "tp - 360" "- 1"] tp that
    by (simp_all add: m180 m1)
  have g: "py_getitem angles 5 = Some a"
    using assms(3,4) by (simp add: py_getitem_def)
  have bl: "-180 \<le> (if tn < -180 then rnd (tn + 360) else tn)"
           "(if tn < -180 then rnd (tn + 360) else tn) \<le> 180"
    using tn wl by (auto simp add: not_less)
  have br: "-180 \<le> (if tp > 180 then rnd (tp - 360) else tp)"
           "(if tp > 180 then rnd (tp - 360) else tp) \<le> 180"
    using tp wr by (auto simp add: not_less)
  have left: "cobot_update rnd angles s sgl =
              \<lparr>mc = s,
               issued = [Send_angle 6 (if tn < -180 then rnd (tn + 360) else tn) 10],
               raised = None\<rparr>"
    using first_pressed_cases [OF assms(8)]
    by (elim disjE conjE)
       (simp_all add: update_DPAD_LEFT [OF assms(7)] assms(2) g returns_def tn_def)
  have right: "cobot_update rnd angles s sgr =
              \<lparr>mc = s,
               issued = [Send_angle 6 (if tp > 180 then rnd (tp - 360) else tp) 10],
               raised = None\<rparr>"
    using first_pressed_cases [OF assms(10)]
    by (elim disjE conjE)
       (simp_all add: update_DPAD_RIGHT [OF assms(9)] assms(2) g returns_def tp_def)
  from left bl right br show ?thesis unfolding tn_def tp_def by (intro conjI)
qed

text \<open>
  With the rounding of binary64: at the reported angle 90 the two branches send -89 and
  -91; at the reported angle \<open>-(1 + 2\<^sup>-\<^sup>5\<^sup>2)\<close>, the double next below -1, the difference
  rounds to -180, so that no 360 is added and -180 is sent.
\<close>

theorem joint6_wrap_witness:
  "float_rounding binary64
   \<and> joint (init_cobot\<lparr>joint := 6\<rparr>) = 6
   \<and> length [0, 0, 0, 0, 0, 90 :: real] = 6 \<and> [0, 0, 0, 0, 0, 90 :: real] ! 5 = 90
   \<and> -180 \<le> (90 :: real) \<and> (90 :: real) \<le> 180
   \<and> get_combination_action (pressed {''DPAD_LEFT'', ''RIGHT_SHOULDER''}) = None
   \<and> spec_first_pressed (buttons (pressed {''DPAD_LEFT'', ''RIGHT_SHOULDER''})) = Some ''DPAD_LEFT''
   \<and> get_combination_action (pressed {''DPAD_RIGHT''}) = None
   \<and> spec_first_pressed (buttons (pressed {''DPAD_RIGHT''})) = Some ''DPAD_RIGHT''
   \<and> issued (cobot_update binary64 [0, 0, 0, 0, 0, 90] (init_cobot\<lparr>joint := 6\<rparr>)
                (pressed {''DPAD_LEFT'', ''RIGHT_SHOULDER''})) = [Send_angle 6 (-89) 10]
   \<and> issued (cobot_update binary64 [0, 0, 0, 0, 0, 90] (init_cobot\<lparr>joint := 6\<rparr>)
                (pressed {''DPAD_RIGHT''})) = [Send_angle 6 (-91) 10]
   \<and> issued (cobot_update binary64 [0, 0, 0, 0, 0, - (1 + 1 / 2 ^ 52)]
                (init_cobot\<lparr>joint := 6\<rparr>)
                (pressed {''DPAD_LEFT'', ''RIGHT_SHOULDER''})) = [Send_angle 6 (-180) 10]"
proof -
  note r = float_rounding_binary64
  have j: "joint (init_cobot\<lparr>joint := 6\<rparr>) = 6" by simp
  have n: "length [0, 0, 0, 0, 0, 90 :: real] = 6" by simp
  have a: "[0, 0, 0, 0, 0, 90 :: real] ! 5 = 90" by (simp add: eval_nat_numeral)
  have lo: "-180 \<le> (90 :: real)" and hi: "(90 :: real) \<le> 180" by simp_all
  have cl: "get_combination_action (pressed {''DPAD_LEFT'', ''RIGHT_SHOULDER''}) = None"
    by (simp add: get_combination_action_def pressed_def)
  have fl: "spec_first_pressed (buttons (pressed {''DPAD_LEFT'', ''RIGHT_SHOULDER''}))
              = Some ''DPAD_LEFT''"
    by (simp add: spec_first_pressed_def spec_priority_def pressed_def)
  have cr: "get_combination_action (pressed {''DPAD_RIGHT''}) = None"
    by (simp add: get_combination_action_def pressed_def)
  have fr: "spec_first_pressed (buttons (pressed {''DPAD_RIGHT''})) = Some ''DPAD_RIGHT''"
    by (simp add: spec_first_pressed_def spec_priority_def pressed_def)
  have e1: "binary64 (- 89) = - 89" using binary64_int_small [of "- 89"] by simp
  have e2: "binary64 269 = 269" using binary64_int_small [of 269] by simp
  have e3: "binary64 (- 91) = - 91" using binary64_int_small [of "- 91"] by simp
  have first: "issued (cobot_update binary64 [0, 0, 0, 0, 0, 90] (init_cobot\<lparr>joint := 6\<rparr>)
                (pressed {''DPAD_LEFT'', ''RIGHT_SHOULDER''})) = [Send_angle 6 (-89) 10]
   \<and> issued (cobot_update binary64 [0, 0, 0, 0, 0, 90] (init_cobot\<lparr>joint := 6\<rparr>)
                (pressed {''DPAD_RIGHT''})) = [Send_angle 6 (-91) 10]"
    using joint6_wrap [OF r j n a lo hi cl fl cr fr] by (simp add: e1 e2 e3)
  have n': "length [0, 0, 0, 0, 0, - (1 + 1 / 2 ^ 52) :: real] = 6" by simp
  have a': "[0, 0, 0, 0, 0, - (1 + 1 / 2 ^ 52) :: real] ! 5 = - (1 + 1 / 2 ^ 52)"
    by (simp add: eval_nat_numeral)
  have lo': "-180 \<le> (- (1 + 1 / 2 ^ 52) :: real)" and hi': "(- (1 + 1 / 2 ^ 52) :: real) \<le> 180"
    by simp_all
  from joint6_wrap [OF r j n' a' lo' hi' cl fl cr fr]
  have "cobot_update binary64 [0, 0, 0, 0, 0, - (1 + 1 / 2 ^ 52)] (init_cobot\<lparr>joint := 6\<rparr>)
          (pressed {''DPAD_LEFT'', ''RIGHT_SHOULDER''}) =
        \<lparr>mc = init_cobot\<lparr>joint := 6\<rparr>,
         issued = [Send_angle 6
                    (if binary64 (- (1 + 1 / 2 ^ 52) - 179) < -180
                     then binary64 (binary64 (- (1 + 1 / 2 ^ 52) - 179) + 360)
                     else binary64 (- (1 + 1 / 2 ^ 52) - 179)) 10],
         raised = None\<rparr>"
    by (rule conjunct1)
  then have "cobot_update binary64 [0, 0, 0, 0, 0, - (1 + 1 / 2 ^ 52)] (init_cobot\<lparr>joint := 6\<rparr>)
          (pressed {''DPAD_LEFT'', ''RIGHT_SHOULDER''}) =
        \<lparr>mc = init_cobot\<lparr>joint := 6\<rparr>,
         issued = [Send_angle 6 (if (- 180 :: real) < -180 then binary64 (- 180 + 360) else - 180) 10],
         raised = None\<rparr>"
    by (simp only: binary64_near_minus_180)
  then have second: "issued (cobot_update binary64 [0, 0, 0, 0, 0, - (1 + 1 / 2 ^ 52)]
                (init_cobot\<lparr>joint := 6\<rparr>)
                (pressed {''DPAD_LEFT'', ''RIGHT_SHOULDER''})) = [Send_angle 6 (-180) 10]"
    by simp
  from r j n a lo hi cl fl cr fr first second show ?thesis by (intro conjI) simp_all
qed

subsection \<open>Events of the joystick\<close>

text \<open>
  Claim C7. When a release event of controller 0 names a button that is not in the set of
  pressed buttons, the adapter's \<^verbatim>\<open>update\<close> does not absorb it: it raises an error, the
  \<^verbatim>\<open>KeyError\<close> of \<^verbatim>\<open>set.remove\<close>.
\<close>

theorem release_without_press_raises:
  assumes "user_index e = 0" and "etype e = EVENT_BUTTON_RELEASED"
      and "button e \<notin> set_objs h (pressed_button a)"
  shows "adapter_update a e h = Inl KeyError"
  using assms by (simp add: adapter_update_def)

text \<open>Button A released on the freshly constructed adapter.\<close>

theorem release_without_press_raises_witness:
  "user_index release_A = 0 \<and> etype release_A = EVENT_BUTTON_RELEASED
   \<and> button release_A \<notin> set_objs init_store (pressed_button init_adapter)
   \<and> adapter_update init_adapter release_A init_store = Inl KeyError"
proof -
  have u: "user_index release_A = 0" by (simp add: release_A_def press_A_def)
  have t: "etype release_A = EVENT_BUTTON_RELEASED" by (simp add: release_A_def)
  have b: "button release_A \<notin> set_objs init_store (pressed_button init_adapter)"
    by (simp add: init_store_def)
  from release_without_press_raises [OF u t b] u t b show ?thesis by simp
qed

subsection \<open>The published snapshot\<close>

text \<open>
  Claim C8 says that a published snapshot does not change when the adapter's state
  changes afterwards. The dictionary of \<^verbatim>\<open>notify\<close> holds the adapter's own set: published
  with no button pressed, it shows button A as soon as the adapter has recorded the
  press of A.
\<close>

theorem published_snapshot_changes:
  "adapter_update init_adapter press_A init_store = Inr store_A
   \<and> buttons (deref init_store (notify_dict init_adapter)) = {}
   \<and> buttons (deref store_A (notify_dict init_adapter)) = {''A''}
   \<and> deref store_A (notify_dict init_adapter) \<noteq> deref init_store (notify_dict init_adapter)"
proof -
  have u: "adapter_update init_adapter press_A init_store = Inr store_A"
    by (simp add: adapter_update_def press_A_def init_adapter_def store_A_def init_store_def)
  have b0: "buttons (deref init_store (notify_dict init_adapter)) = {}"
    by (simp add: deref_def init_store_def)
  have b1: "buttons (deref store_A (notify_dict init_adapter)) = {''A''}"
    by (simp add: deref_def store_A_def notify_dict_def init_adapter_def)
  have "buttons (deref store_A (notify_dict init_adapter))
          \<noteq> buttons (deref init_store (notify_dict init_adapter))"
    by (simp only: b0 b1) simp
  then have "deref store_A (notify_dict init_adapter) \<noteq> deref init_store (notify_dict init_adapter)"
    by (rule_tac notI) simp
  with u b0 b1 show ?thesis by (intro conjI)
qed

text \<open>
  Claim C8, amended. The dictionary published by \<^verbatim>\<open>notify\<close> is not a copy: its three
  entries are the adapter's own set of pressed buttons and its own two lists. When it is
  published it shows the adapter's state of that moment, and every later \<^verbatim>\<open>update\<close> of
  the adapter shows through it: a press adds the button to its buttons, a release
  removes it, a trigger or stick event overwrites the slot, and any other event leaves
  it as it was.
\<close>

theorem published_snapshot_follows_state:
  assumes "adapter_update a e h = Inr h'"
  shows "deref h (notify_dict a) =
           \<lparr>buttons = set_objs h (pressed_button a),
            triggers = trigger_objs h (trigger_values a),
            sticks = stick_objs h (stick_values a)\<rparr>
       \<and> buttons (deref h' (notify_dict a)) =
           (if user_index e = 0 \<and> etype e = EVENT_BUTTON_PRESSED
            then insert (button e) (buttons (deref h (notify_dict a)))
            else if user_index e = 0 \<and> etype e = EVENT_BUTTON_RELEASED
            then buttons (deref h (notify_dict a)) - {button e}
            else buttons (deref h (notify_dict a)))
       \<and> (if user_index e = 0 \<and> etype e = EVENT_TRIGGER_MOVED
          then py_setitem (triggers (deref h (notify_dict a))) (trigger e) (evalue e)
                 = Some (triggers (deref h' (notify_dict a)))
          else triggers (deref h' (notify_dict a)) = triggers (deref h (notify_dict a)))
       \<and> (if user_index e = 0 \<and> etype e = EVENT_STICK_MOVED
          then py_setitem (sticks (deref h (notify_dict a))) (stick e) (dir e)
                 = Some (sticks (deref h' (notify_dict a)))
          else sticks (deref h' (notify_dict a)) = sticks (deref h (notify_dict a)))"
proof -
  have d: "deref h (notify_dict a) =
           \<lparr>buttons = set_objs h (pressed_button a),
            triggers = trigger_objs h (trigger_values a),
            sticks = stick_objs h (stick_values a)\<rparr>"
    by (simp add: deref_def notify_dict_def)
  have b: "buttons (deref h' (notify_dict a)) =
           (if user_index e = 0 \<and> etype e = EVENT_BUTTON_PRESSED
            then insert (button e) (buttons (deref h (notify_dict a)))
            else if user_index e = 0 \<and> etype e = EVENT_BUTTON_RELEASED
            then buttons (deref h (notify_dict a)) - {button e}
            else buttons (deref h (notify_dict a)))"
    using assms
    by (cases "etype e")
       (auto simp add: adapter_update_def deref_def notify_dict_def
             split: if_splits option.splits)
  have t: "(if user_index e = 0 \<and> etype e = EVENT_TRIGGER_MOVED
          then py_setitem (triggers (deref h (notify_dict a))) (trigger e) (evalue e)
                 = Some (triggers (deref h' (notify_dict a)))
          else triggers (deref h' (notify_dict a)) = triggers (deref h (notify_dict a)))"
    using assms
    by (cases "etype e")
       (auto simp add: adapter_update_def deref_def notify_dict_def
             split: if_splits option.splits)
  have s: "(if user_index e = 0 \<and> etype e = EVENT_STICK_MOVED
          then py_setitem (sticks (deref h (notify_dict a))) (stick e) (dir e)
                 = Some (sticks (deref h' (notify_dict a)))
          else sticks (deref h' (notify_dict a)) = sticks (deref h (notify_dict a)))"
    using assms
    by (cases "etype e")
       (auto simp add: adapter_update_def deref_def notify_dict_def
             split: if_splits option.splits)
  from d b t s show ?thesis by (intro conjI)
qed

text \<open>The dictionary published before A is pressed, read after the press.\<close>

theorem published_snapshot_follows_state_witness:
  "adapter_update init_adapter press_A init_store = Inr store_A
   \<and> buttons (deref store_A (notify_dict init_adapter))
       = insert ''A'' (buttons (deref init_store (notify_dict init_adapter)))
   \<and> triggers (deref store_A (notify_dict init_adapter)) = [0, 0]"
proof -
  have u: "adapter_update init_adapter press_A init_store = Inr store_A"
    by (simp add: adapter_update_def press_A_def init_adapter_def store_A_def init_store_def)
  have p: "user_index press_A = 0" "etype press_A = EVENT_BUTTON_PRESSED" "button press_A = ''A''"
    by (simp_all add: press_A_def)
  have t: "triggers (deref init_store (notify_dict init_adapter)) = [0, 0]"
    by (simp add: deref_def init_store_def)
  from published_snapshot_follows_state [OF u] u p t show ?thesis by simp
qed

subsection \<open>Shutdown\<close>

lemma supervise_requested:
  "(\<exists>p \<in> set polls. ctrl_c p \<or> flag p \<noteq> None) \<Longrightarrow> \<exists>e. supervise polls = Some e"
  by (induction polls) (auto split: option.splits)

lemma finally_steps:
  "finally_block =
     [Disregister ''jd'' ''sa'', Disregister ''sa'' ''mc'', Kill ''jd'', Kill ''sa'',
      Robot (Send_angles [83, 140, -150, 154, 87, 0] 50),
      Sleep 1, Sleep 1, Sleep 1, Sleep 1, Sleep 1, Sleep 1, Sleep 1, Sleep 1, Sleep 1, Sleep 1,
      Robot Release_all_servos]"
  by (simp add: finally_block_def go_sleep_def returns_def upt_rec)

lemma main_log_terminated:
  assumes "supervise polls = Some e"
  shows "main_log polls None =
     Some [Robot (Set_color 0 255 0), Register ''jd'' ''sa'', Register ''sa'' ''mc'',
           Start ''jd'', Start ''sa'',
           Disregister ''jd'' ''sa'', Disregister ''sa'' ''mc'', Kill ''jd'', Kill ''sa'',
           Robot (Send_angles [83, 140, -150, 154, 87, 0] 50),
           Sleep 1, Sleep 1, Sleep 1, Sleep 1, Sleep 1, Sleep 1, Sleep 1, Sleep 1, Sleep 1, Sleep 1,
           Robot Release_all_servos]"
  using assms
  by (simp add: main_log_def main_def finally_steps wiring_def try_block_def
        Customized_MyCobot_def returns_def register_def disregister_def)

text \<open>
  Claim C9 says that the five shutdown steps run to the end whenever termination is
  requested. Ctrl-C in the first iteration of the supervising loop starts the
  \<^verbatim>\<open>finally\<close> block; a second Ctrl-C after nine of its calls, four seconds into the wait,
  ends it there: the servos are never released and \<^verbatim>\<open>KeyboardInterrupt\<close> leaves \<^verbatim>\<open>main\<close>.
\<close>

theorem second_interrupt_aborts_shutdown:
  "ctrl_c ctrl_c_now
   \<and> main_log [ctrl_c_now] (Some 9) =
       Some [Robot (Set_color 0 255 0), Register ''jd'' ''sa'', Register ''sa'' ''mc'',
             Start ''jd'', Start ''sa'',
             Disregister ''jd'' ''sa'', Disregister ''sa'' ''mc'', Kill ''jd'', Kill ''sa'',
             Robot (Send_angles [83, 140, -150, 154, 87, 0] 50),
             Sleep 1, Sleep 1, Sleep 1, Sleep 1]
   \<and> main_exc [ctrl_c_now] (Some 9) = Some (Some KeyboardInterrupt)"
  by (simp add: main_log_def main_exc_def main_def finally_steps wiring_def try_block_def
        Customized_MyCobot_def returns_def register_def disregister_def ctrl_c_now_def
        eval_nat_numeral)

text \<open>
  Claim C9, amended. When termination is requested while \<^verbatim>\<open>main\<close> is in its supervising
  loop, by Ctrl-C or by the interrupt stored by the adapter, and no further interrupt
  arrives during the shutdown, \<^verbatim>\<open>main\<close> ends and has made, after the start-up calls,
  exactly these calls in this order: both listeners unregistered, both threads
  killed, the sleeping posture sent to the robot, ten waits of one second, all servos
  released.
\<close>

theorem shutdown_sequence:
  assumes "\<exists>p \<in> set polls. ctrl_c p \<or> flag p \<noteq> None"
  shows "main_log polls None =
     Some ([Robot (Set_color 0 255 0), Register ''jd'' ''sa'', Register ''sa'' ''mc'',
            Start ''jd'', Start ''sa'']
           @ [Disregister ''jd'' ''sa'', Disregister ''sa'' ''mc'',
              Kill ''jd'', Kill ''sa'',
              Robot (Send_angles [83, 140, -150, 154, 87, 0] 50),
              Sleep 1, Sleep 1, Sleep 1, Sleep 1, Sleep 1,
              Sleep 1, Sleep 1, Sleep 1, Sleep 1, Sleep 1,
              Robot Release_all_servos])"
proof -
  from supervise_requested [OF assms] obtain e where "supervise polls = Some e" by (elim exE)
  then show ?thesis by (simp add: main_log_terminated)
qed

text \<open>The loop sees nothing once and then reads the interrupt stored by the adapter.\<close>

theorem shutdown_sequence_witness:
  "(\<exists>p \<in> set [quiet, flag_set]. ctrl_c p \<or> flag p \<noteq> None)
   \<and> main_log [quiet, flag_set] None =
     Some [Robot (Set_color 0 255 0), Register ''jd'' ''sa'', Register ''sa'' ''mc'',
           Start ''jd'', Start ''sa'',
           Disregister ''jd'' ''sa'', Disregister ''sa'' ''mc'',
           Kill ''jd'', Kill ''sa'',
           Robot (Send_angles [83, 140, -150, 154, 87, 0] 50),
           Sleep 1, Sleep 1, Sleep 1, Sleep 1, Sleep 1,
           Sleep 1, Sleep 1, Sleep 1, Sleep 1, Sleep 1,
           Robot Release_all_servos]"
proof -
  have h: "\<exists>p \<in> set [quiet, flag_set]. ctrl_c p \<or> flag p \<noteq> None"
    by (simp add: flag_set_def)
  from shutdown_sequence [OF h] h show ?thesis by simp
qed

end
